theory Spec2Isabelle
  imports Main "HOL-Library.Product_Lexorder"
begin

section \<open>Generator: the content synthesizer (generate\_s3\_structure.py)\<close>

text \<open>
  Bytes are \<^typ>\<open>char\<close> (eight bits each), a \<^verbatim>\<open>bytes\<close> object is a \<^typ>\<open>char list\<close>.
  A Python \<^verbatim>\<open>str\<close> is a list of code points (\<^typ>\<open>nat\<close>), turned into bytes by
  \<^verbatim>\<open>.encode('utf-8')\<close>. The requested size is a Python integer, so an \<^typ>\<open>int\<close>.
\<close>

type_synonym bytes = "char list"
type_synonym pystr = "nat list"

datatype kind = Pdf | Xml

definition pdf_header :: bytes where
  "pdf_header = ''%PDF-1.4\<newline>''"

definition pdf_content :: bytes where
  "pdf_content = concat [
    ''1 0 obj\<newline>'',
    ''<< /Type /Catalog /Pages 2 0 R >>\<newline>'',
    ''endobj\<newline>'',
    ''2 0 obj\<newline>'',
    ''<< /Type /Pages /Kids [3 0 R] /Count 1 >>\<newline>'',
    ''endobj\<newline>'',
    ''3 0 obj\<newline>'',
    ''<< /Type /Page /Parent 2 0 R /Resources 4 0 R /MediaBox [0 0 612 792] /Contents 5 0 R >>\<newline>'',
    ''endobj\<newline>'',
    ''4 0 obj\<newline>'',
    ''<< /Font << /F1 << /Type /Font /Subtype /Type1 /BaseFont /Helvetica >> >> >>\<newline>'',
    ''endobj\<newline>'',
    ''5 0 obj\<newline>'',
    ''<< /Length 44 >>\<newline>'',
    ''stream\<newline>'',
    ''BT /F1 12 Tf 100 700 Td (Dummy Document) Tj ET\<newline>'',
    ''endstream\<newline>'',
    ''endobj\<newline>'',
    ''xref\<newline>'',
    ''0 6\<newline>'',
    ''0000000000 65535 f\<newline>'',
    ''0000000009 00000 n\<newline>'',
    ''0000000058 00000 n\<newline>'',
    ''0000000115 00000 n\<newline>'',
    ''0000000229 00000 n\<newline>'',
    ''0000000327 00000 n\<newline>'',
    ''trailer\<newline>'',
    ''<< /Size 6 /Root 1 0 R >>\<newline>'',
    ''startxref\<newline>'',
    ''420\<newline>'',
    ''%%EOF\<newline>'']"

text \<open>\<^verbatim>\<open>b'\x00' * padding_size\<close>: a non-positive count gives the empty bytes object.\<close>

definition bytes_times :: "char \<Rightarrow> int \<Rightarrow> bytes" where
  "bytes_times c n = replicate (nat n) c"

definition create_dummy_pdf :: "int \<Rightarrow> bytes" where
  "create_dummy_pdf size_bytes =
     (let header_size = int (length pdf_header) + int (length pdf_content);
          padding_size = max 0 (size_bytes - header_size);
          padding = bytes_times (CHR 0x00) padding_size
      in pdf_header @ pdf_content @ padding)"

definition xml_header :: bytes where
  \<open>xml_header = ''<?xml version="1.0" encoding="UTF-8"?>\<newline>''\<close>

definition xml_start :: bytes where
  "xml_start = ''<document>\<newline>  <type>OPA</type>\<newline>  <data>\<newline>''"

definition xml_end :: bytes where
  "xml_end = ''  </data>\<newline></document>\<newline>''"

text \<open>\<^verbatim>\<open>string.ascii_letters + string.digits + ' \n'\<close>, as code points.\<close>

definition padding_alphabet :: pystr where
  "padding_alphabet = map of_char
     (''abcdefghijklmnopqrstuvwxyzABCDEFGHIJKLMNOPQRSTUVWXYZ'' @ ''0123456789'' @ '' \<newline>'')"

text \<open>
  \<^verbatim>\<open>random.choices(population, k=k)\<close> draws \<open>k\<close> indices below the population's
  length. The generator's state is the parameter \<open>rnd\<close>, the stream of its raw draws; the
  \<open>i\<close>-th element chosen is the one at index \<open>rnd i mod len(population)\<close>.
\<close>

definition choices :: "(nat \<Rightarrow> nat) \<Rightarrow> 'a list \<Rightarrow> int \<Rightarrow> 'a list" where
  "choices rnd population k =
     map (\<lambda>i. population ! (rnd i mod length population)) [0..<nat k]"

text \<open>UTF-8: one to four bytes for a code point.\<close>

definition utf8_char :: "nat \<Rightarrow> bytes" where
  "utf8_char c =
     (if c < 0x80 then [char_of c]
      else if c < 0x800 then [char_of (0xC0 + c div 0x40), char_of (0x80 + c mod 0x40)]
      else if c < 0x10000 then
        [char_of (0xE0 + c div 0x1000), char_of (0x80 + c div 0x40 mod 0x40),
         char_of (0x80 + c mod 0x40)]
      else
        [char_of (0xF0 + c div 0x40000), char_of (0x80 + c div 0x1000 mod 0x40),
         char_of (0x80 + c div 0x40 mod 0x40), char_of (0x80 + c mod 0x40)])"

definition encode_utf8 :: "pystr \<Rightarrow> bytes" where
  "encode_utf8 s = concat (map utf8_char s)"

definition create_dummy_xml :: "(nat \<Rightarrow> nat) \<Rightarrow> int \<Rightarrow> bytes" where
  "create_dummy_xml rnd size_bytes =
     (let header_size = int (length xml_header) + int (length xml_start) + int (length xml_end);
          padding_size = max 0 (size_bytes - header_size);
          padding = choices rnd padding_alphabet padding_size
      in xml_header @ xml_start @ encode_utf8 padding @ xml_end)"

text \<open>
  The callers choose the synthesizer by the file's extension (\<^verbatim>\<open>.xml\<close>, otherwise PDF);
  \<open>synthesize\<close> is that dispatch, returning the bytes written to the file.
\<close>

definition synthesize :: "kind \<Rightarrow> (nat \<Rightarrow> nat) \<Rightarrow> int \<Rightarrow> bytes" where
  "synthesize k rnd size_bytes =
     (case k of Xml \<Rightarrow> create_dummy_xml rnd size_bytes | Pdf \<Rightarrow> create_dummy_pdf size_bytes)"

text \<open>The length of the fixed part of each kind: what the source calls \<^verbatim>\<open>header_size\<close>.\<close>

definition fixed_skeleton_length :: "kind \<Rightarrow> int" where
  "fixed_skeleton_length k =
     (case k of
        Pdf \<Rightarrow> int (length pdf_header) + int (length pdf_content)
      | Xml \<Rightarrow> int (length xml_header) + int (length xml_start) + int (length xml_end))"

section \<open>Archiver: dates and times (monthly\_archive.py)\<close>

text \<open>
  Exceptions are values: a function that can raise returns \<open>error + 'a\<close>, with \<open>Inl\<close> the
  exception. \<open>ClientError\<close> stands for whatever the store client raises, \<open>OSError\<close> for
  what the file system raises.

  A \<^verbatim>\<open>datetime\<close> is the record of its fields; \<open>tzinfo\<close> is \<open>None\<close> for a naive value
  and \<open>Some UTC\<close> for an aware one (the only zone the program meets: \<^verbatim>\<open>timezone.utc\<close>
  on the bounds and on parsed timestamps, and the store client's UTC on last-modified
  stamps). Python only ever builds values that satisfy \<open>valid_datetime\<close>.
\<close>

datatype error = OverflowError | TypeError | ValueError | IndexError | RuntimeError | OSError | ClientError

datatype tz = UTC

record datetime =
  year :: int
  month :: int
  day :: int
  hour :: int
  minute :: int
  second :: int
  microsecond :: int
  tzinfo :: "tz option"

text \<open>
  The proleptic Gregorian calendar, as in Python's \<^verbatim>\<open>datetime\<close> module: the ordinal of
  a date counts days from 0001-01-01 (ordinal 1), and \<open>to_microseconds\<close> places an instant
  on the line of microseconds.
\<close>

definition is_leap :: "int \<Rightarrow> bool" where
  "is_leap y = (y mod 4 = 0 \<and> (y mod 100 \<noteq> 0 \<or> y mod 400 = 0))"

definition days_in_month :: "int \<Rightarrow> int \<Rightarrow> int" where
  "days_in_month y m =
     (if m = 2 then (if is_leap y then 29 else 28)
      else if m = 4 \<or> m = 6 \<or> m = 9 \<or> m = 11 then 30 else 31)"

definition days_before_year :: "int \<Rightarrow> int" where
  "days_before_year y = (y - 1) * 365 + (y - 1) div 4 - (y - 1) div 100 + (y - 1) div 400"

definition days_before_month :: "int \<Rightarrow> int \<Rightarrow> int" where
  "days_before_month y m = sum_list (map (days_in_month y) [1..m - 1])"

definition ymd2ord :: "int \<Rightarrow> int \<Rightarrow> int \<Rightarrow> int" where
  "ymd2ord y m d = days_before_year y + days_before_month y m + d"

definition toordinal :: "datetime \<Rightarrow> int" where
  "toordinal d = ymd2ord (year d) (month d) (day d)"

definition to_microseconds :: "datetime \<Rightarrow> int" where
  "to_microseconds d =
     (((toordinal d * 24 + hour d) * 60 + minute d) * 60 + second d) * 1000000 + microsecond d"

definition valid_datetime :: "datetime \<Rightarrow> bool" where
  "valid_datetime d =
     (1 \<le> year d \<and> year d \<le> 9999 \<and> 1 \<le> month d \<and> month d \<le> 12
      \<and> 1 \<le> day d \<and> day d \<le> days_in_month (year d) (month d)
      \<and> 0 \<le> hour d \<and> hour d < 24 \<and> 0 \<le> minute d \<and> minute d < 60
      \<and> 0 \<le> second d \<and> second d < 60 \<and> 0 \<le> microsecond d \<and> microsecond d < 1000000)"

text \<open>
  \<^verbatim>\<open>d - timedelta(days=1)\<close> and \<^verbatim>\<open>d - timedelta(microseconds=1)\<close>, the two subtractions
  the program performs, written by borrowing from the next field. The zone is kept. The
  result would lie before 0001-01-01 exactly when the borrow reaches year 1, and then the
  subtraction raises OverflowError. Below, \<open>toordinal_sub_one_day\<close> and
  \<open>to_microseconds_sub_one_microsecond\<close> show that these are the subtractions of one day
  and of one microsecond on the line.
\<close>

definition sub_one_day :: "datetime \<Rightarrow> error + datetime" where
  "sub_one_day d =
     (if 1 < day d then Inr (d\<lparr>day := day d - 1\<rparr>)
      else if 1 < month d then
        Inr (d\<lparr>month := month d - 1, day := days_in_month (year d) (month d - 1)\<rparr>)
      else if 1 < year d then Inr (d\<lparr>year := year d - 1, month := 12, day := 31\<rparr>)
      else Inl OverflowError)"

definition sub_one_microsecond :: "datetime \<Rightarrow> error + datetime" where
  "sub_one_microsecond d =
     (if 0 < microsecond d then Inr (d\<lparr>microsecond := microsecond d - 1\<rparr>)
      else if 0 < second d then Inr (d\<lparr>second := second d - 1, microsecond := 999999\<rparr>)
      else if 0 < minute d then
        Inr (d\<lparr>minute := minute d - 1, second := 59, microsecond := 999999\<rparr>)
      else if 0 < hour d then
        Inr (d\<lparr>hour := hour d - 1, minute := 59, second := 59, microsecond := 999999\<rparr>)
      else
        (case sub_one_day d of
           Inl e \<Rightarrow> Inl e
         | Inr p \<Rightarrow> Inr (p\<lparr>hour := 23, minute := 59, second := 59, microsecond := 999999\<rparr>)))"

text \<open>Comparison of datetimes: naive with naive and aware with aware compare by their
  fields (every aware value here is in UTC); a naive and an aware one raise TypeError.\<close>

definition dt_fields :: "datetime \<Rightarrow> int \<times> int \<times> int \<times> int \<times> int \<times> int \<times> int" where
  "dt_fields d = (year d, month d, day d, hour d, minute d, second d, microsecond d)"

definition aware :: "datetime \<Rightarrow> bool" where
  "aware d = (tzinfo d \<noteq> None)"

definition same_domain :: "datetime \<Rightarrow> datetime \<Rightarrow> bool" where
  "same_domain a b = (aware a = aware b)"

definition dt_le :: "datetime \<Rightarrow> datetime \<Rightarrow> error + bool" where
  "dt_le a b = (if same_domain a b then Inr (dt_fields a \<le> dt_fields b) else Inl TypeError)"

text \<open>The chained comparison \<^verbatim>\<open>lo <= x <= hi\<close>: the second comparison is evaluated
  only when the first one is true.\<close>

definition in_range :: "datetime \<Rightarrow> datetime \<Rightarrow> datetime \<Rightarrow> error + bool" where
  "in_range lo x hi =
     (case dt_le lo x of
        Inl e \<Rightarrow> Inl e
      | Inr False \<Rightarrow> Inr False
      | Inr True \<Rightarrow> dt_le x hi)"

text \<open>
  \<^verbatim>\<open>strftime('%Y-%m')\<close>, as the platform's C library formats it: \<^verbatim>\<open>%Y\<close> is the
  year in decimal with no padding (\<^verbatim>\<open>999\<close> for the year 999, four digits from the year
  1000 on), \<^verbatim>\<open>%m\<close> the month in two digits.
\<close>

fun decimal :: "nat \<Rightarrow> string" where
  "decimal n = (if n < 10 then [char_of (48 + n)] else decimal (n div 10) @ [char_of (48 + n mod 10)])"

declare decimal.simps [simp del]

fun zero_padded :: "nat \<Rightarrow> nat \<Rightarrow> string" where
  "zero_padded 0 n = []"
| "zero_padded (Suc w) n = zero_padded w (n div 10) @ [char_of (48 + n mod 10)]"

definition strftime_Y_m :: "datetime \<Rightarrow> string" where
  "strftime_Y_m d = decimal (nat (year d)) @ ''-'' @ zero_padded 2 (nat (month d))"

section \<open>Archiver: paths and archive names\<close>

text \<open>
  A \<^verbatim>\<open>pathlib.Path\<close> (POSIX flavour) is its root (empty, one separator or two) and the
  list of its parts. \<open>Path s\<close> parses a string: empty components and \<^verbatim>\<open>.\<close> are dropped,
  \<^verbatim>\<open>..\<close> is kept. \<open>path_join p s\<close> is \<^verbatim>\<open>p / s\<close>: an absolute \<open>s\<close> replaces \<open>p\<close>.
  \<open>path_str\<close> is \<^verbatim>\<open>str(p)\<close> and \<open>path_name\<close> is \<^verbatim>\<open>p.name\<close>.
\<close>

type_synonym path = "string \<times> string list"

fun split_sep :: "string \<Rightarrow> string list" where
  "split_sep [] = [[]]"
| "split_sep (c # s) =
     (if c = CHR ''/'' then [] # split_sep s
      else (case split_sep s of [] \<Rightarrow> [[c]] | x # xs \<Rightarrow> (c # x) # xs))"

fun join_sep :: "string list \<Rightarrow> string" where
  "join_sep [] = []"
| "join_sep [x] = x"
| "join_sep (x # y # ys) = x @ ''/'' @ join_sep (y # ys)"

definition initial_slashes :: "string \<Rightarrow> nat" where
  "initial_slashes s =
     (if take 1 s = ''/'' then (if take 2 s = ''//'' \<and> take 3 s \<noteq> ''///'' then 2 else 1) else 0)"

definition Path :: "string \<Rightarrow> path" where
  "Path s =
     (replicate (initial_slashes s) (CHR ''/''),
      filter (\<lambda>x. x \<noteq> [] \<and> x \<noteq> ''.'') (split_sep s))"

definition path_join :: "path \<Rightarrow> string \<Rightarrow> path" where
  "path_join p s = (if fst (Path s) \<noteq> [] then Path s else (fst p, snd p @ snd (Path s)))"

definition path_str :: "path \<Rightarrow> string" where
  "path_str p = (if fst p = [] \<and> snd p = [] then ''.'' else fst p @ join_sep (snd p))"

definition path_name :: "path \<Rightarrow> string" where
  "path_name p = (if snd p = [] then [] else last (snd p))"

text \<open>
  The name under which \<^verbatim>\<open>ZipFile.write(filename, arcname)\<close> stores an entry:
  \<^verbatim>\<open>os.path.normpath(arcname)\<close> with its leading separators stripped. \<open>normpath\<close>
  drops empty components and \<^verbatim>\<open>.\<close>, and cancels \<^verbatim>\<open>..\<close> against the component
  before it. Stripping reads the first character, so a name that is all separators raises
  IndexError.
\<close>

fun normpath_comps :: "bool \<Rightarrow> string list \<Rightarrow> string list \<Rightarrow> string list" where
  "normpath_comps rooted [] new_comps = new_comps"
| "normpath_comps rooted (component # comps) new_comps =
     (if component = [] \<or> component = ''.'' then normpath_comps rooted comps new_comps
      else if component \<noteq> ''..'' \<or> (\<not> rooted \<and> new_comps = [])
              \<or> (new_comps \<noteq> [] \<and> last new_comps = ''..'')
      then normpath_comps rooted comps (new_comps @ [component])
      else if new_comps \<noteq> [] then normpath_comps rooted comps (butlast new_comps)
      else normpath_comps rooted comps new_comps)"

definition normpath :: "string \<Rightarrow> string" where
  "normpath p =
     (if p = [] then ''.''
      else
        (let comps = normpath_comps (initial_slashes p \<noteq> 0) (split_sep p) [];
             r = replicate (initial_slashes p) (CHR ''/'') @ join_sep comps
         in if r = [] then ''.'' else r))"

definition stored_name :: "string \<Rightarrow> string" where
  "stored_name arcname = dropWhile (\<lambda>c. c = CHR ''/'') (normpath arcname)"

definition zip_arcname :: "string \<Rightarrow> error + string" where
  "zip_arcname arcname = (if stored_name arcname = [] then Inl IndexError else Inr (stored_name arcname))"

section \<open>Archiver: the environment\<close>

text \<open>
  Everything the archiver reads from outside is a field of \<open>world\<close>:
  \<^item> \<open>clock_now\<close>: \<^verbatim>\<open>datetime.now()\<close>;
  \<^item> \<open>HAS_BOTO3\<close>: whether the import of the store client succeeded;
  \<^item> \<open>strptime text format\<close>: \<^verbatim>\<open>datetime.strptime\<close>, \<open>None\<close> when it raises ValueError.
    The library's parser is a parameter, so every result below holds for whatever it
    accepts;
  \<^item> \<open>path_exists\<close>, \<open>mkdir\<close>: \<^verbatim>\<open>Path.exists()\<close> and
    \<^verbatim>\<open>Path.mkdir(parents=True, exist_ok=True)\<close>;
  \<^item> \<open>rglob folder\<close>: the entries \<^verbatim>\<open>folder.rglob('*')\<close> yields, each with its path
    relative to the data directory, whether it is a regular file, and
    \<^verbatim>\<open>datetime.fromtimestamp\<close> of its modification time;
  \<^item> \<open>paginate bucket prefix\<close>: the pages of \<^verbatim>\<open>list_objects_v2\<close>, a page being its
    \<^verbatim>\<open>Contents\<close> list when it has one;
  \<^item> \<open>head_object bucket key\<close>: the response's \<^verbatim>\<open>Metadata\<close> dictionary when it has
    one, or the exception raised;
  \<^item> \<open>download_file\<close>, \<open>upload_file\<close>: the transfers, which may raise;
  \<^item> \<open>zipfile_open zip_path\<close>: creating the archive with \<^verbatim>\<open>zipfile.ZipFile(zip_path, 'w')\<close>,
    which may raise;
  \<^item> \<open>zipfile_write file_key\<close>: reading the file of that key for \<^verbatim>\<open>ZipFile.write\<close>, which
    may raise (a missing file, a modification time before 1980).

  What the archiver writes is the \<open>state\<close>: the ZIP files on disk by their paths, each with
  the names of its entries in order, and the uploads made. Printing to standard output is
  left out.
\<close>

record s3_object =
  Key :: string
  LastModified :: datetime

type_synonym page = "s3_object list option"

type_synonym head_response = "(string \<rightharpoonup> string) option"

record local_entry =
  relative_path :: string
  is_file :: bool
  mtime :: datetime

record world =
  clock_now :: datetime
  HAS_BOTO3 :: bool
  strptime :: "string \<Rightarrow> string \<Rightarrow> datetime option"
  path_exists :: "path \<Rightarrow> bool"
  mkdir :: "path \<Rightarrow> error + unit"
  rglob :: "path \<Rightarrow> local_entry list"
  paginate :: "string \<Rightarrow> string \<Rightarrow> error + page list"
  head_object :: "string \<Rightarrow> string \<Rightarrow> error + head_response"
  download_file :: "string \<Rightarrow> string \<Rightarrow> error + unit"
  zipfile_open :: "path \<Rightarrow> error + unit"
  zipfile_write :: "string \<Rightarrow> error + unit"
  upload_file :: "string \<Rightarrow> string \<Rightarrow> string \<Rightarrow> error + unit"

record state =
  zip_files :: "path \<rightharpoonup> string list"
  uploaded :: "(string \<times> string) list"

record archiver =
  bucket_name :: string
  output_dir :: path
  use_s3 :: bool
  local_data_dir :: "path option"

definition truthy :: "string option \<Rightarrow> bool" where
  "truthy v = (case v of None \<Rightarrow> False | Some s \<Rightarrow> s \<noteq> [])"

section \<open>Archiver: MonthlyArchiver\<close>

text \<open>
  The methods of \<^verbatim>\<open>MonthlyArchiver\<close>, with \<open>self\<close> the record of its attributes. \<open>init\<close>
  is the constructor.
\<close>

definition init :: "world \<Rightarrow> string \<Rightarrow> string \<Rightarrow> bool \<Rightarrow> string option \<Rightarrow> error + archiver" where
  "init w bucket output use local =
     (let self = \<lparr>bucket_name = bucket, output_dir = Path output, use_s3 = use,
                   local_data_dir = (if truthy local then Some (Path (the local)) else None)\<rparr>
      in case (if use then (if \<not> HAS_BOTO3 w then Inl RuntimeError else Inr ())
               else (case local_data_dir self of
                       None \<Rightarrow> Inl ValueError
                     | Some d \<Rightarrow> if \<not> path_exists w d then Inl ValueError else Inr ())) of
           Inl e \<Rightarrow> Inl e
         | Inr _ \<Rightarrow> (case mkdir w (output_dir self) of Inl e \<Rightarrow> Inl e | Inr _ \<Rightarrow> Inr self))"

definition get_previous_month_range ::
  "world \<Rightarrow> archiver \<Rightarrow> datetime option \<Rightarrow> error + (datetime \<times> datetime)" where
  "get_previous_month_range w self reference_date =
     (let reference_date = (case reference_date of None \<Rightarrow> clock_now w | Some d \<Rightarrow> d);
          first_of_current_month =
            reference_date\<lparr>day := 1, hour := 0, minute := 0, second := 0, microsecond := 0\<rparr>
      in case sub_one_day first_of_current_month of
           Inl e \<Rightarrow> Inl e
         | Inr last_of_previous_month \<Rightarrow>
             (let first_of_previous_month =
                    last_of_previous_month\<lparr>day := 1, hour := 0, minute := 0, second := 0,
                      microsecond := 0\<rparr>
              in case sub_one_microsecond first_of_current_month of
                   Inl e \<Rightarrow> Inl e
                 | Inr end_of_previous_month \<Rightarrow>
                     if use_s3 self
                     then Inr (first_of_previous_month\<lparr>tzinfo := Some UTC\<rparr>,
                               end_of_previous_month\<lparr>tzinfo := Some UTC\<rparr>)
                     else Inr (first_of_previous_month, end_of_previous_month)))"

text \<open>
  \<^verbatim>\<open>list_s3_files\<close>. \<open>s3_file_date\<close> is the guarded block up to the comparison: the
  metadata fetch, and the choice between the parsed \<^verbatim>\<open>original-timestamp\<close> and
  \<^verbatim>\<open>LastModified\<close>. \<open>s3_object_selected\<close> is the whole loop body: an exception anywhere in
  the guarded block, the comparison included, is caught, and the handler compares
  \<^verbatim>\<open>LastModified\<close>; an exception in the handler leaves the method. \<open>s3_loop\<close> runs the
  body over the objects of all pages in order, appending the selected keys.
\<close>

definition s3_file_date :: "world \<Rightarrow> archiver \<Rightarrow> s3_object \<Rightarrow> error + datetime" where
  "s3_file_date w self obj =
     (case head_object w (bucket_name self) (Key obj) of
        Inl e \<Rightarrow> Inl e
      | Inr head_response \<Rightarrow>
          (let metadata = (case head_response of None \<Rightarrow> Map.empty | Some m \<Rightarrow> m)
           in case metadata ''original-timestamp'' of
                Some timestamp_str \<Rightarrow>
                  (case strptime w timestamp_str ''%Y-%m-%dT%H:%M:%S'' of
                     None \<Rightarrow> Inl ValueError
                   | Some file_date \<Rightarrow> Inr (file_date\<lparr>tzinfo := Some UTC\<rparr>))
              | None \<Rightarrow> Inr (LastModified obj)))"

definition s3_object_selected ::
  "world \<Rightarrow> archiver \<Rightarrow> datetime \<Rightarrow> datetime \<Rightarrow> s3_object \<Rightarrow> error + bool" where
  "s3_object_selected w self start_date end_date obj =
     (case (case s3_file_date w self obj of
              Inl e \<Rightarrow> Inl e
            | Inr file_date \<Rightarrow> in_range start_date file_date end_date) of
        Inr b \<Rightarrow> Inr b
      | Inl e \<Rightarrow> in_range start_date (LastModified obj) end_date)"

fun s3_loop ::
  "world \<Rightarrow> archiver \<Rightarrow> datetime \<Rightarrow> datetime \<Rightarrow> s3_object list \<Rightarrow> string list
    \<Rightarrow> error + string list" where
  "s3_loop w self start_date end_date [] files = Inr files"
| "s3_loop w self start_date end_date (obj # rest) files =
     (case s3_object_selected w self start_date end_date obj of
        Inl e \<Rightarrow> Inl e
      | Inr b \<Rightarrow>
          s3_loop w self start_date end_date rest (if b then files @ [Key obj] else files))"

definition page_contents :: "page \<Rightarrow> s3_object list" where
  "page_contents page = (case page of None \<Rightarrow> [] | Some contents \<Rightarrow> contents)"

definition list_s3_files ::
  "world \<Rightarrow> archiver \<Rightarrow> string \<Rightarrow> datetime \<Rightarrow> datetime \<Rightarrow> error + string list" where
  "list_s3_files w self prefix start_date end_date =
     (case paginate w (bucket_name self) prefix of
        Inl e \<Rightarrow> Inl e
      | Inr pages \<Rightarrow>
          s3_loop w self start_date end_date (concat (map page_contents pages)) [])"

text \<open>\<^verbatim>\<open>list_local_files\<close>: nothing is caught here, a comparison that raises ends the method.\<close>

fun local_loop ::
  "datetime \<Rightarrow> datetime \<Rightarrow> local_entry list \<Rightarrow> string list \<Rightarrow> error + string list" where
  "local_loop start_date end_date [] files = Inr files"
| "local_loop start_date end_date (file_path # rest) files =
     (if is_file file_path then
        (case in_range start_date (mtime file_path) end_date of
           Inl e \<Rightarrow> Inl e
         | Inr b \<Rightarrow>
             local_loop start_date end_date rest
               (if b then files @ [relative_path file_path] else files))
      else local_loop start_date end_date rest files)"

definition list_local_files ::
  "world \<Rightarrow> archiver \<Rightarrow> string \<Rightarrow> datetime \<Rightarrow> datetime \<Rightarrow> error + string list" where
  "list_local_files w self folder_name start_date end_date =
     (case local_data_dir self of
        None \<Rightarrow> Inl TypeError
      | Some d \<Rightarrow>
          (let folder_path = path_join d folder_name
           in if \<not> path_exists w folder_path then Inr []
              else local_loop start_date end_date (rglob w folder_path) []))"

text \<open>
  \<^verbatim>\<open>create_zip_archive\<close>. Opening the archive in mode \<^verbatim>\<open>'w'\<close> creates it empty (or
  empties an existing one); each file is fetched first in remote mode and then added with
  its own key or relative path as \<^verbatim>\<open>arcname\<close> (\<open>zipf_write\<close>). When a fetch or an
  addition raises, the archive stays on disk with the entries written so far.
\<close>

definition zip_write :: "state \<Rightarrow> path \<Rightarrow> string \<Rightarrow> state" where
  "zip_write s zip_path name =
     s\<lparr>zip_files := (zip_files s)(zip_path \<mapsto>
          (case zip_files s zip_path of None \<Rightarrow> [] | Some entries \<Rightarrow> entries) @ [name])\<rparr>"

definition zipf_write :: "world \<Rightarrow> path \<Rightarrow> string \<Rightarrow> state \<Rightarrow> error option \<times> state" where
  "zipf_write w zip_path file_key s =
     (case zipfile_write w file_key of
        Inl e \<Rightarrow> (Some e, s)
      | Inr _ \<Rightarrow>
          (case zip_arcname file_key of
             Inl e \<Rightarrow> (Some e, s)
           | Inr name \<Rightarrow> (None, zip_write s zip_path name)))"

fun write_files ::
  "world \<Rightarrow> archiver \<Rightarrow> path \<Rightarrow> string list \<Rightarrow> state \<Rightarrow> error option \<times> state" where
  "write_files w self zip_path [] s = (None, s)"
| "write_files w self zip_path (file_key # rest) s =
     (case (if use_s3 self then download_file w (bucket_name self) file_key else Inr ()) of
        Inl e \<Rightarrow> (Some e, s)
      | Inr _ \<Rightarrow>
          (case zipf_write w zip_path file_key s of
             (Some e, s') \<Rightarrow> (Some e, s')
           | (None, s') \<Rightarrow> write_files w self zip_path rest s'))"

definition create_zip_archive ::
  "world \<Rightarrow> archiver \<Rightarrow> string list \<Rightarrow> path \<Rightarrow> state \<Rightarrow> (error + nat) \<times> state" where
  "create_zip_archive w self files zip_path s =
     (if files = [] then (Inr 0, s)
      else
        (case zipfile_open w zip_path of
           Inl e \<Rightarrow> (Inl e, s)
         | Inr _ \<Rightarrow>
             (case write_files w self zip_path files
                     (s\<lparr>zip_files := (zip_files s)(zip_path \<mapsto> [])\<rparr>) of
                (Some e, s') \<Rightarrow> (Inl e, s')
              | (None, s') \<Rightarrow> (Inr (length files), s'))))"

text \<open>
  \<^verbatim>\<open>archive_previous_month\<close>. The source processes the Opening folder and then the Customer
  folder with the same statements; \<open>process_folder\<close> is that block, returning the count and
  the archive path it records in the statistics (\<open>0\<close> and \<open>None\<close> when nothing was
  selected). \<open>upload_one\<close> is the upload of one recorded archive, skipped when the path is
  \<open>None\<close>.
\<close>

record stats =
  stats_month :: string
  opening_files :: nat
  customer_files :: nat
  opening_zip :: "string option"
  customer_zip :: "string option"

definition select_files ::
  "world \<Rightarrow> archiver \<Rightarrow> string \<Rightarrow> datetime \<Rightarrow> datetime \<Rightarrow> error + string list" where
  "select_files w self folder start_date end_date =
     (if use_s3 self then list_s3_files w self (folder @ ''/'') start_date end_date
      else list_local_files w self folder start_date end_date)"

definition zip_name :: "string \<Rightarrow> string \<Rightarrow> string" where
  "zip_name folder month_str = folder @ ''_'' @ month_str @ ''.zip''"

definition process_folder ::
  "world \<Rightarrow> archiver \<Rightarrow> string \<Rightarrow> string \<Rightarrow> datetime \<Rightarrow> datetime \<Rightarrow> state
    \<Rightarrow> (error + nat \<times> string option) \<times> state" where
  "process_folder w self folder month_str start_date end_date s =
     (case select_files w self folder start_date end_date of
        Inl e \<Rightarrow> (Inl e, s)
      | Inr files \<Rightarrow>
          if files \<noteq> [] then
            (let zip_path = path_join (output_dir self) (zip_name folder month_str)
             in case create_zip_archive w self files zip_path s of
                  (Inl e, s') \<Rightarrow> (Inl e, s')
                | (Inr files_count, s') \<Rightarrow> (Inr (files_count, Some (path_str zip_path)), s'))
          else (Inr (0, None), s))"

definition upload_one :: "world \<Rightarrow> archiver \<Rightarrow> string option \<Rightarrow> state \<Rightarrow> error option \<times> state" where
  "upload_one w self zip_entry s =
     (case zip_entry of
        None \<Rightarrow> (None, s)
      | Some p \<Rightarrow>
          if p = [] then (None, s)
          else
            (let s3_key = ''archives/'' @ path_name (Path p)
             in case upload_file w p (bucket_name self) s3_key of
                  Inl e \<Rightarrow> (Some e, s)
                | Inr _ \<Rightarrow> (None, s\<lparr>uploaded := uploaded s @ [(p, s3_key)]\<rparr>)))"

definition archive_previous_month ::
  "world \<Rightarrow> archiver \<Rightarrow> datetime option \<Rightarrow> bool \<Rightarrow> state \<Rightarrow> (error + stats) \<times> state" where
  "archive_previous_month w self reference_date upload_to_s3 s =
     (case get_previous_month_range w self reference_date of
        Inl e \<Rightarrow> (Inl e, s)
      | Inr (start_date, end_date) \<Rightarrow>
          (let month_str = strftime_Y_m start_date
           in case process_folder w self ''Opening'' month_str start_date end_date s of
                (Inl e, s1) \<Rightarrow> (Inl e, s1)
              | (Inr (n_opening, zip_opening), s1) \<Rightarrow>
                  (case process_folder w self ''Customer'' month_str start_date end_date s1 of
                     (Inl e, s2) \<Rightarrow> (Inl e, s2)
                   | (Inr (n_customer, zip_customer), s2) \<Rightarrow>
                       (let stats = \<lparr>stats_month = month_str, opening_files = n_opening,
                                      customer_files = n_customer, opening_zip = zip_opening,
                                      customer_zip = zip_customer\<rparr>
                        in if upload_to_s3 \<and> use_s3 self then
                             (case upload_one w self (opening_zip stats) s2 of
                                (Some e, s3) \<Rightarrow> (Inl e, s3)
                              | (None, s3) \<Rightarrow>
                                  (case upload_one w self (customer_zip stats) s3 of
                                     (Some e, s4) \<Rightarrow> (Inl e, s4)
                                   | (None, s4) \<Rightarrow> (Inr stats, s4)))
                           else (Inr stats, s2)))))"

section \<open>Archiver: the command line\<close>

text \<open>
  \<^verbatim>\<open>main\<close>, after \<^verbatim>\<open>parse_args\<close> has delivered the options. An option is present
  when it is given and not the empty string (\<^verbatim>\<open>if args.bucket\<close>). \<^verbatim>\<open>parser.error\<close>
  prints the usage and the message to standard error and ends the process with status 2.
  The constructor is called outside the \<^verbatim>\<open>try\<close>: an exception there ends the process
  with a traceback and status 1. An exception in the run is caught, printed, and gives
  status 1; a run that returns gives status 0.
\<close>

record args =
  bucket :: "string option"
  local_dir :: "string option"
  output_arg :: string
  upload_to_s3 :: bool
  date :: "string option"

datatype message = Usage_error string | Traceback error | Error_line error

record outcome =
  exit_code :: int
  stderr :: "message list"
  final :: state

definition parser_error :: "string \<Rightarrow> state \<Rightarrow> outcome" where
  "parser_error msg s = \<lparr>exit_code = 2, stderr = [Usage_error msg], final = s\<rparr>"

definition parse_reference_date :: "world \<Rightarrow> args \<Rightarrow> string + datetime option" where
  "parse_reference_date w a =
     (if truthy (date a) then
        (case strptime w (the (date a)) ''%Y-%m-%d'' of
           Some d \<Rightarrow> Inr (Some d)
         | None \<Rightarrow> Inl (''Invalid date format: '' @ the (date a) @ ''. Use YYYY-MM-DD''))
      else Inr None)"

definition main :: "world \<Rightarrow> args \<Rightarrow> state \<Rightarrow> outcome" where
  "main w a s =
     (if \<not> truthy (bucket a) \<and> \<not> truthy (local_dir a) then
        parser_error ''Either --bucket or --local-dir must be specified'' s
      else if truthy (bucket a) \<and> truthy (local_dir a) then
        parser_error ''Cannot specify both --bucket and --local-dir'' s
      else
        (case parse_reference_date w a of
           Inl msg \<Rightarrow> parser_error msg s
         | Inr reference_date \<Rightarrow>
             (let use = truthy (bucket a)
              in case init w (if use then the (bucket a) else ''local'') (output_arg a) use
                        (local_dir a) of
                   Inl e \<Rightarrow> \<lparr>exit_code = 1, stderr = [Traceback e], final = s\<rparr>
                 | Inr archiver \<Rightarrow>
                     (case archive_previous_month w archiver reference_date (upload_to_s3 a) s of
                        (Inr stats, s') \<Rightarrow> \<lparr>exit_code = 0, stderr = [], final = s'\<rparr>
                      | (Inl e, s') \<Rightarrow> \<lparr>exit_code = 1, stderr = [Error_line e], final = s'\<rparr>))))"

section \<open>Archiver: the selectors with their comparisons recorded\<close>

text \<open>
  The selectors once more, statement by statement, with one difference: every comparison
  of two datetimes goes through \<open>dt_le_traced\<close>, which evaluates \<open>dt_le\<close> and appends its two
  operands to a record of the comparisons made. The first component of each result is what
  the selector returns (\<open>select_files_traced_result\<close> below shows that it is the result of
  the selector above), the second is the list of the operand pairs of all comparisons the
  selector evaluated, in order.
\<close>

type_synonym comparisons = "(datetime \<times> datetime) list"

definition dt_le_traced ::
  "datetime \<Rightarrow> datetime \<Rightarrow> comparisons \<Rightarrow> (error + bool) \<times> comparisons" where
  "dt_le_traced a b t = (dt_le a b, t @ [(a, b)])"

definition in_range_traced ::
  "datetime \<Rightarrow> datetime \<Rightarrow> datetime \<Rightarrow> comparisons \<Rightarrow> (error + bool) \<times> comparisons" where
  "in_range_traced lo x hi t =
     (case dt_le_traced lo x t of
        (Inl e, t') \<Rightarrow> (Inl e, t')
      | (Inr False, t') \<Rightarrow> (Inr False, t')
      | (Inr True, t') \<Rightarrow> dt_le_traced x hi t')"

definition s3_object_selected_traced ::
  "world \<Rightarrow> archiver \<Rightarrow> datetime \<Rightarrow> datetime \<Rightarrow> s3_object \<Rightarrow> comparisons
    \<Rightarrow> (error + bool) \<times> comparisons" where
  "s3_object_selected_traced w self start_date end_date obj t =
     (case (case s3_file_date w self obj of
              Inl e \<Rightarrow> (Inl e, t)
            | Inr file_date \<Rightarrow> in_range_traced start_date file_date end_date t) of
        (Inr b, t') \<Rightarrow> (Inr b, t')
      | (Inl e, t') \<Rightarrow> in_range_traced start_date (LastModified obj) end_date t')"

fun s3_loop_traced ::
  "world \<Rightarrow> archiver \<Rightarrow> datetime \<Rightarrow> datetime \<Rightarrow> s3_object list \<Rightarrow> string list
    \<Rightarrow> comparisons \<Rightarrow> (error + string list) \<times> comparisons" where
  "s3_loop_traced w self start_date end_date [] files t = (Inr files, t)"
| "s3_loop_traced w self start_date end_date (obj # rest) files t =
     (case s3_object_selected_traced w self start_date end_date obj t of
        (Inl e, t') \<Rightarrow> (Inl e, t')
      | (Inr b, t') \<Rightarrow>
          s3_loop_traced w self start_date end_date rest
            (if b then files @ [Key obj] else files) t')"

definition list_s3_files_traced ::
  "world \<Rightarrow> archiver \<Rightarrow> string \<Rightarrow> datetime \<Rightarrow> datetime \<Rightarrow> comparisons
    \<Rightarrow> (error + string list) \<times> comparisons" where
  "list_s3_files_traced w self prefix start_date end_date t =
     (case paginate w (bucket_name self) prefix of
        Inl e \<Rightarrow> (Inl e, t)
      | Inr pages \<Rightarrow>
          s3_loop_traced w self start_date end_date (concat (map page_contents pages)) [] t)"

fun local_loop_traced ::
  "datetime \<Rightarrow> datetime \<Rightarrow> local_entry list \<Rightarrow> string list \<Rightarrow> comparisons
    \<Rightarrow> (error + string list) \<times> comparisons" where
  "local_loop_traced start_date end_date [] files t = (Inr files, t)"
| "local_loop_traced start_date end_date (file_path # rest) files t =
     (if is_file file_path then
        (case in_range_traced start_date (mtime file_path) end_date t of
           (Inl e, t') \<Rightarrow> (Inl e, t')
         | (Inr b, t') \<Rightarrow>
             local_loop_traced start_date end_date rest
               (if b then files @ [relative_path file_path] else files) t')
      else local_loop_traced start_date end_date rest files t)"

definition list_local_files_traced ::
  "world \<Rightarrow> archiver \<Rightarrow> string \<Rightarrow> datetime \<Rightarrow> datetime \<Rightarrow> comparisons
    \<Rightarrow> (error + string list) \<times> comparisons" where
  "list_local_files_traced w self folder_name start_date end_date t =
     (case local_data_dir self of
        None \<Rightarrow> (Inl TypeError, t)
      | Some d \<Rightarrow>
          (let folder_path = path_join d folder_name
           in if \<not> path_exists w folder_path then (Inr [], t)
              else local_loop_traced start_date end_date (rglob w folder_path) [] t))"

definition select_files_traced ::
  "world \<Rightarrow> archiver \<Rightarrow> string \<Rightarrow> datetime \<Rightarrow> datetime \<Rightarrow> comparisons
    \<Rightarrow> (error + string list) \<times> comparisons" where
  "select_files_traced w self folder start_date end_date t =
     (if use_s3 self then list_s3_files_traced w self (folder @ ''/'') start_date end_date t
      else list_local_files_traced w self folder start_date end_date t)"

section \<open>Notions of the specification\<close>

text \<open>
  The definitions of this section are not translations of source functions: they say, in
  the specification's words, what the properties below compare the program with.

  The reference date is the argument, or the clock's reading when there is none. The month
  before a date's month, the first instant of a month and its last instant (at microsecond
  resolution) are what the month boundary is stated with; \<open>bounds_tz\<close> is the zone the
  resolver gives both bounds.
\<close>

definition reference :: "world \<Rightarrow> datetime option \<Rightarrow> datetime" where
  "reference w reference_date = (case reference_date of None \<Rightarrow> clock_now w | Some d \<Rightarrow> d)"

definition previous_month :: "datetime \<Rightarrow> int \<times> int" where
  "previous_month d = (if month d = 1 then (year d - 1, 12) else (year d, month d - 1))"

definition first_instant :: "int \<Rightarrow> int \<Rightarrow> tz option \<Rightarrow> datetime" where
  "first_instant y m z =
     \<lparr>year = y, month = m, day = 1, hour = 0, minute = 0, second = 0, microsecond = 0,
      tzinfo = z\<rparr>"

definition last_instant :: "int \<Rightarrow> int \<Rightarrow> tz option \<Rightarrow> datetime" where
  "last_instant y m z =
     \<lparr>year = y, month = m, day = days_in_month y m, hour = 23, minute = 59, second = 59,
      microsecond = 999999, tzinfo = z\<rparr>"

definition bounds_tz :: "archiver \<Rightarrow> datetime \<Rightarrow> tz option" where
  "bounds_tz self d = (if use_s3 self then Some UTC else tzinfo d)"

text \<open>
  \<^verbatim>\<open>head_response.get('Metadata', {})\<close>, and the objects without a usable timestamp: the
  metadata fetch raises, or the \<^verbatim>\<open>original-timestamp\<close> field is absent, or it does not
  parse. \<open>within lo x hi\<close> says that \<open>x\<close> lies in the closed interval, by the fields alone.
\<close>

definition metadata_of :: "head_response \<Rightarrow> (string \<rightharpoonup> string)" where
  "metadata_of head_response = (case head_response of None \<Rightarrow> Map.empty | Some m \<Rightarrow> m)"

definition no_usable_timestamp :: "world \<Rightarrow> archiver \<Rightarrow> s3_object \<Rightarrow> bool" where
  "no_usable_timestamp w self obj =
     (case head_object w (bucket_name self) (Key obj) of
        Inl e \<Rightarrow> True
      | Inr head_response \<Rightarrow>
          (case metadata_of head_response ''original-timestamp'' of
             None \<Rightarrow> True
           | Some timestamp_str \<Rightarrow> strptime w timestamp_str ''%Y-%m-%dT%H:%M:%S'' = None))"

definition within :: "datetime \<Rightarrow> datetime \<Rightarrow> datetime \<Rightarrow> bool" where
  "within lo x hi = (dt_fields lo \<le> dt_fields x \<and> dt_fields x \<le> dt_fields hi)"

text \<open>
  The effective timestamp of a remote object, in the specification's words: the
  \<^verbatim>\<open>original-timestamp\<close> metadata value re-labelled UTC when it is present and parses,
  otherwise the store's last-modified stamp.
\<close>

definition effective_timestamp :: "world \<Rightarrow> archiver \<Rightarrow> s3_object \<Rightarrow> datetime" where
  "effective_timestamp w self obj =
     (case head_object w (bucket_name self) (Key obj) of
        Inl e \<Rightarrow> LastModified obj
      | Inr head_response \<Rightarrow>
          (case metadata_of head_response ''original-timestamp'' of
             None \<Rightarrow> LastModified obj
           | Some timestamp_str \<Rightarrow>
               (case strptime w timestamp_str ''%Y-%m-%dT%H:%M:%S'' of
                  None \<Rightarrow> LastModified obj
                | Some d \<Rightarrow> d\<lparr>tzinfo := Some UTC\<rparr>)))"

text \<open>\<^verbatim>\<open>datetime(y, m, d, h, mi, s, tzinfo=z)\<close>, for writing examples.\<close>

definition mk_datetime ::
  "int \<Rightarrow> int \<Rightarrow> int \<Rightarrow> int \<Rightarrow> int \<Rightarrow> int \<Rightarrow> tz option \<Rightarrow> datetime" where
  "mk_datetime y m d h mi s z =
     \<lparr>year = y, month = m, day = d, hour = h, minute = mi, second = s, microsecond = 0,
      tzinfo = z\<rparr>"

text \<open>
  The argument combinations the command line rejects: both sources given, neither given, or
  a non-empty \<^verbatim>\<open>--date\<close> value that \<^verbatim>\<open>strptime\<close> does not parse.
\<close>

definition invalid_arguments :: "world \<Rightarrow> args \<Rightarrow> bool" where
  "invalid_arguments w a =
     ((truthy (bucket a) \<and> truthy (local_dir a))
      \<or> (\<not> truthy (bucket a) \<and> \<not> truthy (local_dir a))
      \<or> (truthy (date a) \<and> strptime w (the (date a)) ''%Y-%m-%d'' = None))"

text \<open>
  The comparisons a selector evaluates on an interval: the record that its traced form
  leaves, started empty.
\<close>

definition select_files_comparisons ::
  "world \<Rightarrow> archiver \<Rightarrow> string \<Rightarrow> datetime \<Rightarrow> datetime \<Rightarrow> comparisons" where
  "select_files_comparisons w self folder start_date end_date =
     snd (select_files_traced w self folder start_date end_date [])"

text \<open>
  What the libraries promise about the datetimes they hand out: the store client reports
  last-modified stamps as UTC-aware values; \<^verbatim>\<open>datetime.fromtimestamp\<close>,
  \<^verbatim>\<open>datetime.now\<close> and \<^verbatim>\<open>strptime\<close> (with a format that has no zone) return
  naive values.
\<close>

definition library_contract :: "world \<Rightarrow> bool" where
  "library_contract w =
     ((\<forall>b p pages obj. paginate w b p = Inr pages \<longrightarrow>
          obj \<in> set (concat (map page_contents pages)) \<longrightarrow> aware (LastModified obj))
      \<and> (\<forall>p entry. entry \<in> set (rglob w p) \<longrightarrow> \<not> aware (mtime entry))
      \<and> \<not> aware (clock_now w)
      \<and> (\<forall>text format d. strptime w text format = Some d \<longrightarrow> \<not> aware d))"

section \<open>Example environments\<close>

text \<open>
  A local data directory \<^verbatim>\<open>data\<close> with one transaction folder under \<^verbatim>\<open>Opening\<close>,
  holding one file last modified on 20 September 2025, an empty folder \<^verbatim>\<open>Spare\<close>, and
  no \<^verbatim>\<open>Customer\<close> folder.
  \<open>strptime\<close> lists the library's answers on the strings that occur in the example.
\<close>

definition empty_state :: state where
  "empty_state = \<lparr>zip_files = Map.empty, uploaded = []\<rparr>"

definition local_world :: world where
  "local_world =
     \<lparr>clock_now = mk_datetime 2025 11 3 9 0 0 None,
      HAS_BOTO3 = False,
      strptime = (\<lambda>text format.
        if format = ''%Y-%m-%d'' \<and> text = ''2025-10-15''
        then Some (mk_datetime 2025 10 15 0 0 0 None) else None),
      path_exists = (\<lambda>p.
        path_str p = ''data'' \<or> path_str p = ''data/Opening'' \<or> path_str p = ''data/Spare''),
      mkdir = (\<lambda>p. Inr ()),
      rglob = (\<lambda>p.
        if path_str p = ''data/Opening'' then
          [\<lparr>relative_path = ''Opening/TXN100000'', is_file = False,
            mtime = mk_datetime 2025 9 20 14 30 0 None\<rparr>,
           \<lparr>relative_path = ''Opening/TXN100000/IDD.pdf'', is_file = True,
            mtime = mk_datetime 2025 9 20 14 30 0 None\<rparr>]
        else []),
      paginate = (\<lambda>b p. Inl ClientError),
      head_object = (\<lambda>b k. Inl ClientError),
      download_file = (\<lambda>b k. Inl ClientError),
      zipfile_open = (\<lambda>p. Inr ()),
      zipfile_write = (\<lambda>k. Inr ()),
      upload_file = (\<lambda>p b k. Inl ClientError)\<rparr>"

definition local_archiver :: archiver where
  "local_archiver =
     \<lparr>bucket_name = ''local'', output_dir = Path ''archives'', use_s3 = False,
      local_data_dir = Some (Path ''data'')\<rparr>"

definition local_args :: args where
  "local_args =
     \<lparr>bucket = None, local_dir = Some ''data'', output_arg = ''archives'',
      upload_to_s3 = False, date = Some ''2025-10-15''\<rparr>"

text \<open>
  A bucket with five objects under \<^verbatim>\<open>Opening/\<close>, listed in three pages of which the
  second has no \<^verbatim>\<open>Contents\<close>: one whose metadata timestamp lies in September 2025 while
  the store's stamp lies in October, one whose metadata cannot be fetched, one whose
  timestamp does not parse, one without metadata, and one whose metadata timestamp lies in
  August while the store's stamp lies in September.
\<close>

definition obj_stamped :: s3_object where
  "obj_stamped =
     \<lparr>Key = ''Opening/TXN100001/IDD.pdf'', LastModified = mk_datetime 2025 10 2 8 0 0 (Some UTC)\<rparr>"

definition obj_unreachable :: s3_object where
  "obj_unreachable =
     \<lparr>Key = ''Opening/TXN100002/KYC.pdf'', LastModified = mk_datetime 2025 9 3 8 0 0 (Some UTC)\<rparr>"

definition obj_garbled :: s3_object where
  "obj_garbled =
     \<lparr>Key = ''Opening/TXN100003/OPA.xml'', LastModified = mk_datetime 2025 10 5 8 0 0 (Some UTC)\<rparr>"

definition obj_plain :: s3_object where
  "obj_plain =
     \<lparr>Key = ''Opening/TXN100004/PID.pdf'',
      LastModified = mk_datetime 2025 9 30 23 59 59 (Some UTC)\<rparr>"

definition obj_older :: s3_object where
  "obj_older =
     \<lparr>Key = ''Opening/TXN100005/IDD.pdf'', LastModified = mk_datetime 2025 9 10 8 0 0 (Some UTC)\<rparr>"

definition bucket_world :: world where
  "bucket_world =
     \<lparr>clock_now = mk_datetime 2025 10 15 6 0 0 None,
      HAS_BOTO3 = True,
      strptime = (\<lambda>text format.
        if format = ''%Y-%m-%dT%H:%M:%S'' \<and> text = ''2025-09-15T10:00:00''
        then Some (mk_datetime 2025 9 15 10 0 0 None)
        else if format = ''%Y-%m-%dT%H:%M:%S'' \<and> text = ''2025-08-01T00:00:00''
        then Some (mk_datetime 2025 8 1 0 0 0 None)
        else None),
      path_exists = (\<lambda>p. False),
      mkdir = (\<lambda>p. Inr ()),
      rglob = (\<lambda>p. []),
      paginate = (\<lambda>b p.
        if b = ''demo-bucket'' \<and> p = ''Opening/''
        then Inr [Some [obj_stamped, obj_unreachable, obj_garbled], None,
                  Some [obj_plain, obj_older]]
        else if b = ''demo-bucket'' then Inr [None]
        else Inl ClientError),
      head_object = (\<lambda>b k.
        if k = ''Opening/TXN100001/IDD.pdf''
        then Inr (Some [''original-timestamp'' \<mapsto> ''2025-09-15T10:00:00''])
        else if k = ''Opening/TXN100003/OPA.xml''
        then Inr (Some [''original-timestamp'' \<mapsto> ''yesterday''])
        else if k = ''Opening/TXN100004/PID.pdf'' then Inr None
        else if k = ''Opening/TXN100005/IDD.pdf''
        then Inr (Some [''original-timestamp'' \<mapsto> ''2025-08-01T00:00:00''])
        else Inl ClientError),
      download_file = (\<lambda>b k. Inr ()),
      zipfile_open = (\<lambda>p. Inr ()),
      zipfile_write = (\<lambda>k. Inr ()),
      upload_file = (\<lambda>p b k. Inr ())\<rparr>"

definition bucket_archiver :: archiver where
  "bucket_archiver =
     \<lparr>bucket_name = ''demo-bucket'', output_dir = Path ''archives'', use_s3 = True,
      local_data_dir = None\<rparr>"

definition both_given_args :: args where
  "both_given_args =
     \<lparr>bucket = Some ''X'', local_dir = Some ''Y'', output_arg = ''archives'',
      upload_to_s3 = False, date = None\<rparr>"

definition other_bucket_args :: args where
  "other_bucket_args =
     \<lparr>bucket = Some ''other-bucket'', local_dir = None, output_arg = ''archives'',
      upload_to_s3 = False, date = None\<rparr>"




section \<open>The content synthesizer\<close>

lemma fixed_skeleton_length_values:
  "fixed_skeleton_length Pdf = 584" "fixed_skeleton_length Xml = 100"
  by (simp_all add: fixed_skeleton_length_def pdf_header_def pdf_content_def
      xml_header_def xml_start_def xml_end_def)

lemma padding_alphabet_ascii: "c \<in> set padding_alphabet \<Longrightarrow> c < 0x80"
  by (auto simp: padding_alphabet_def)

lemma choices_subset:
  assumes "population \<noteq> []"
  shows "set (choices rnd population k) \<subseteq> set population"
  using assms by (auto simp: choices_def)

lemma length_choices: "length (choices rnd population k) = nat k"
  by (simp add: choices_def)

lemma length_encode_utf8_ascii:
  "(\<And>c. c \<in> set s \<Longrightarrow> c < 0x80) \<Longrightarrow> length (encode_utf8 s) = length s"
  by (induction s) (simp_all add: encode_utf8_def utf8_char_def)

lemma length_xml_padding:
  "length (encode_utf8 (choices rnd padding_alphabet k)) = nat k"
proof -
  have "padding_alphabet \<noteq> []"
    by (simp add: padding_alphabet_def)
  then have "set (choices rnd padding_alphabet k) \<subseteq> set padding_alphabet"
    by (rule choices_subset)
  then have "length (encode_utf8 (choices rnd padding_alphabet k))
      = length (choices rnd padding_alphabet k)"
    by (intro length_encode_utf8_ascii padding_alphabet_ascii) auto
  then show ?thesis
    by (simp add: length_choices)
qed

text \<open>
  C1. For every requested size \<open>S\<close> (any integer, also a negative one) and each kind, the
  synthesizer's output is \<open>max S (fixed_skeleton_length K)\<close> bytes long. The skeleton is
  never cut: the PDF output starts with the whole header and body, the XML output is the
  header and opening tags, some padding, and the whole closing part.
\<close>

theorem synthesizer_output_length:
  "int (length (synthesize K rnd S)) = max S (fixed_skeleton_length K)
   \<and> (\<exists>pad. create_dummy_pdf S = pdf_header @ pdf_content @ pad)
   \<and> (\<exists>pad. create_dummy_xml rnd S = xml_header @ xml_start @ pad @ xml_end)"
proof (intro conjI)
  show "int (length (synthesize K rnd S)) = max S (fixed_skeleton_length K)"
  proof (cases K)
    case Pdf
    then show ?thesis
      by (simp add: synthesize_def create_dummy_pdf_def fixed_skeleton_length_def
          bytes_times_def Let_def)
  next
    case Xml
    then show ?thesis
      by (simp add: synthesize_def create_dummy_xml_def fixed_skeleton_length_def
          length_xml_padding Let_def)
  qed
  show "\<exists>pad. create_dummy_pdf S = pdf_header @ pdf_content @ pad"
    by (simp add: create_dummy_pdf_def Let_def)
  show "\<exists>pad. create_dummy_xml rnd S = xml_header @ xml_start @ pad @ xml_end"
    by (simp add: create_dummy_xml_def Let_def)
qed

section \<open>Date arithmetic\<close>

lemma div_step:
  fixes k y :: int
  assumes "0 < k"
  shows "y div k = (y - 1) div k + (if y mod k = 0 then 1 else 0)"
proof -
  define q where "q = (y - 1) div k"
  define r where "r = (y - 1) mod k"
  have r: "0 \<le> r" "r < k" using assms by (simp_all add: r_def)
  have y: "y = k * q + r + 1" by (simp add: q_def r_def)
  show ?thesis
  proof (cases "r = k - 1")
    case True
    then have eq: "y = k * (q + 1) + 0" using y by (simp add: algebra_simps)
    have "y div k = q + 1" using assms by (intro int_div_pos_eq [OF eq]) simp_all
    moreover have "y mod k = 0" using assms by (intro int_mod_pos_eq [OF eq]) simp_all
    ultimately show ?thesis by (simp add: q_def)
  next
    case False
    then have lt: "r + 1 < k" "0 \<le> r + 1" using r by simp_all
    have eq: "y = k * q + (r + 1)" using y by simp
    have "y div k = q" using lt by (intro int_div_pos_eq [OF eq]) simp_all
    moreover have "y mod k = r + 1" using lt by (intro int_mod_pos_eq [OF eq]) simp_all
    ultimately show ?thesis using r by (simp add: q_def)
  qed
qed

lemma mod_0_trans:
  fixes y :: int
  assumes "y mod a = 0" "b dvd a"
  shows "y mod b = 0"
proof -
  have "a dvd y" using assms(1) by (simp add: dvd_eq_mod_eq_0)
  with assms(2) have "b dvd y" by (rule dvd_trans)
  then show ?thesis by (simp add: dvd_eq_mod_eq_0)
qed

lemma days_before_year_Suc:
  "days_before_year (y + 1) = days_before_year y + (if is_leap y then 366 else 365)"
proof -
  define a where "a = (y - 1) div 4"
  define b where "b = (y - 1) div 100"
  define c where "c = (y - 1) div 400"
  have e4: "y div 4 = a + (if y mod 4 = 0 then 1 else 0)"
    unfolding a_def by (rule div_step) simp
  have e100: "y div 100 = b + (if y mod 100 = 0 then 1 else 0)"
    unfolding b_def by (rule div_step) simp
  have e400: "y div 400 = c + (if y mod 400 = 0 then 1 else 0)"
    unfolding c_def by (rule div_step) simp
  have i1: "y mod 400 = 0 \<Longrightarrow> y mod 100 = 0"
    by (erule mod_0_trans) simp
  have i2: "y mod 100 = 0 \<Longrightarrow> y mod 4 = 0"
    by (erule mod_0_trans) simp
  have lhs: "days_before_year (y + 1) = y * 365 + y div 4 - y div 100 + y div 400"
    by (simp add: days_before_year_def)
  have rhs: "days_before_year y = (y - 1) * 365 + a - b + c"
    by (simp add: days_before_year_def a_def b_def c_def)
  consider (c400) "y mod 400 = 0" | (c100) "y mod 400 \<noteq> 0" "y mod 100 = 0"
    | (c4) "y mod 100 \<noteq> 0" "y mod 4 = 0" | (c1) "y mod 4 \<noteq> 0"
    by blast
  then show ?thesis
  proof cases
    case c400
    then have "y mod 100 = 0" "y mod 4 = 0" using i1 i2 by simp_all
    with c400 show ?thesis
      unfolding lhs rhs e4 e100 e400 is_leap_def by (simp add: algebra_simps)
  next
    case c100
    then have "y mod 4 = 0" using i2 by simp
    with c100 show ?thesis
      unfolding lhs rhs e4 e100 e400 is_leap_def by (simp add: algebra_simps)
  next
    case c4
    then have "y mod 400 \<noteq> 0" using i1 by auto
    with c4 show ?thesis
      unfolding lhs rhs e4 e100 e400 is_leap_def by (simp add: algebra_simps)
  next
    case c1
    then have n100: "y mod 100 \<noteq> 0" using i2 by auto
    then have n400: "y mod 400 \<noteq> 0" using i1 by auto
    note n100 n400
    with c1 show ?thesis
      unfolding lhs rhs e4 e100 e400 is_leap_def by (simp add: algebra_simps)
  qed
qed

lemma days_before_month_step:
  "1 \<le> m \<Longrightarrow> days_before_month y (m + 1) = days_before_month y m + days_in_month y m"
  by (simp add: days_before_month_def upto_rec2)

lemma days_before_month_13:
  "days_before_month y 13 = (if is_leap y then 366 else 365)"
  by (simp add: days_before_month_def days_in_month_def upto_rec1)

lemma days_in_month_bounds: "28 \<le> days_in_month y m" "days_in_month y m \<le> 31"
  by (simp_all add: days_in_month_def)

lemma toordinal_sub_one_day:
  assumes "valid_datetime d" "sub_one_day d = Inr p"
  shows "toordinal p = toordinal d - 1"
proof -
  have v: "1 \<le> month d" "month d \<le> 12" "1 \<le> day d"
    using assms(1) by (simp_all add: valid_datetime_def)
  consider (day) "1 < day d"
    | (month) "\<not> 1 < day d" "1 < month d"
    | (year) "\<not> 1 < day d" "\<not> 1 < month d" "1 < year d"
    using assms(2) by (auto simp: sub_one_day_def split: if_splits)
  then show ?thesis
  proof cases
    case day
    then show ?thesis
      using assms(2) by (auto simp: sub_one_day_def toordinal_def ymd2ord_def)
  next
    case month
    then have p: "p = d\<lparr>month := month d - 1, day := days_in_month (year d) (month d - 1)\<rparr>"
      using assms(2) by (simp add: sub_one_day_def)
    have "days_before_month (year d) (month d - 1 + 1)
        = days_before_month (year d) (month d - 1) + days_in_month (year d) (month d - 1)"
      using month by (intro days_before_month_step) simp
    then show ?thesis
      using month v by (simp add: p toordinal_def ymd2ord_def)
  next
    case year
    then have p: "p = d\<lparr>year := year d - 1, month := 12, day := 31\<rparr>"
      using assms(2) by (simp add: sub_one_day_def)
    have m: "month d = 1" using year v by simp
    have "days_before_month (year d - 1) (12 + 1)
        = days_before_month (year d - 1) 12 + days_in_month (year d - 1) 12"
      by (intro days_before_month_step) simp
    then have "days_before_month (year d - 1) 12 + 31 = (if is_leap (year d - 1) then 366 else 365)"
      by (simp add: days_before_month_13 days_in_month_def)
    moreover have "days_before_year (year d) =
        days_before_year (year d - 1) + (if is_leap (year d - 1) then 366 else 365)"
      using days_before_year_Suc [of "year d - 1"] by simp
    moreover have "days_before_month (year d) 1 = 0"
      by (simp add: days_before_month_def)
    ultimately show ?thesis
      using year v by (simp add: p m toordinal_def ymd2ord_def)
  qed
qed

lemma to_microseconds_sub_one_microsecond:
  assumes "valid_datetime d" "sub_one_microsecond d = Inr p"
  shows "to_microseconds p = to_microseconds d - 1"
proof (cases "0 < microsecond d \<or> 0 < second d \<or> 0 < minute d \<or> 0 < hour d")
  case True
  have "0 \<le> microsecond d" "0 \<le> second d" "0 \<le> minute d" "0 \<le> hour d"
    using assms(1) by (simp_all add: valid_datetime_def)
  then show ?thesis
    using assms(2) True
    by (auto simp: sub_one_microsecond_def to_microseconds_def toordinal_def split: if_splits)
next
  case False
  then obtain q where q: "sub_one_day d = Inr q"
    and p: "p = q\<lparr>hour := 23, minute := 59, second := 59, microsecond := 999999\<rparr>"
    using assms(2) by (auto simp: sub_one_microsecond_def split: sum.splits)
  have z: "microsecond d = 0" "second d = 0" "minute d = 0" "hour d = 0"
    using assms(1) False by (simp_all add: valid_datetime_def)
  have "toordinal q = toordinal d - 1"
    using assms(1) q by (rule toordinal_sub_one_day)
  moreover have "toordinal p = toordinal q"
    by (simp add: p toordinal_def)
  ultimately show ?thesis
    by (simp add: p z to_microseconds_def)
qed

section \<open>The month-boundary resolver\<close>

lemma get_previous_month_range_reference:
  "get_previous_month_range w self ref = get_previous_month_range w self (Some (reference w ref))"
  by (simp add: get_previous_month_range_def reference_def)

lemma days_in_month_12: "days_in_month y 12 = 31"
  by (simp add: days_in_month_def)

lemma get_previous_month_range_Some:
  assumes "valid_datetime D" "\<not> (year D = 1 \<and> month D = 1)" "previous_month D = (y, m)"
  shows "get_previous_month_range w self (Some D) =
    Inr (first_instant y m (bounds_tz self D), last_instant y m (bounds_tz self D))"
proof (cases D)
  case (fields yy mm dd h mi s us z)
  have v: "1 \<le> yy" "1 \<le> mm"
    using assms(1) by (simp_all add: valid_datetime_def fields)
  show ?thesis
  proof (cases "mm = 1")
    case True
    then have "1 < yy" "y = yy - 1" "m = 12"
      using assms(2,3) v by (auto simp: fields previous_month_def)
    then show ?thesis
      using True
      by (simp add: get_previous_month_range_def fields first_instant_def last_instant_def
          bounds_tz_def sub_one_day_def sub_one_microsecond_def days_in_month_12)
  next
    case False
    then have "1 < mm" "y = yy" "m = mm - 1"
      using assms(3) v by (auto simp: fields previous_month_def)
    then show ?thesis
      by (simp add: get_previous_month_range_def fields first_instant_def last_instant_def
          bounds_tz_def sub_one_day_def sub_one_microsecond_def)
  qed
qed


lemma valid_first_instant:
  "1 \<le> y \<Longrightarrow> y \<le> 9999 \<Longrightarrow> 1 \<le> m \<Longrightarrow> m \<le> 12 \<Longrightarrow> valid_datetime (first_instant y m z)"
  by (simp add: valid_datetime_def first_instant_def days_in_month_def)

lemma valid_last_instant:
  "1 \<le> y \<Longrightarrow> y \<le> 9999 \<Longrightarrow> 1 \<le> m \<Longrightarrow> m \<le> 12 \<Longrightarrow> valid_datetime (last_instant y m z)"
  by (simp add: valid_datetime_def last_instant_def days_in_month_def)

lemma previous_month_bounds:
  assumes "valid_datetime D" "\<not> (year D = 1 \<and> month D = 1)" "previous_month D = (y, m)"
  shows "1 \<le> y" "y \<le> 9999" "1 \<le> m" "m \<le> 12"
  using assms by (auto simp: valid_datetime_def previous_month_def split: if_splits)

lemma sub_one_microsecond_first_instant:
  assumes "1 \<le> yy" "1 \<le> mm" "\<not> (yy = 1 \<and> mm = 1)"
    and "previous_month (first_instant yy mm z) = (y, m)"
  shows "sub_one_microsecond (first_instant yy mm z) = Inr (last_instant y m z)"
  using assms
  by (auto simp: sub_one_microsecond_def sub_one_day_def first_instant_def last_instant_def
      previous_month_def days_in_month_12 split: if_splits)

lemma dt_le_first_last: "dt_le (first_instant y m z) (last_instant y m z) = Inr True"
proof -
  have "1 \<le> days_in_month y m"
    using days_in_month_bounds(1) [of y m] by simp
  then show ?thesis
    by (simp add: dt_le_def same_domain_def aware_def dt_fields_def first_instant_def
        last_instant_def)
qed

text \<open>
  C2, as amended. For every reference date \<open>D\<close> (the argument, or the clock's reading when
  there is none) that is a valid date not in January of year 1, the month-boundary resolver
  returns a pair \<open>(start, end)\<close>: \<open>start\<close> is the first instant (00:00:00.000000) of day 1
  of the month before \<open>D\<close>'s month, \<open>end\<close> is a valid instant exactly one microsecond
  before the first instant of \<open>D\<close>'s month, both carry the same zone (UTC in remote mode,
  \<open>D\<close>'s own otherwise), \<open>start\<close> and \<open>end\<close> lie in the same month of the same year, and
  \<open>start <= end\<close>.
\<close>

theorem previous_month_range_boundary:
  assumes "valid_datetime (reference w ref)"
    and "\<not> (year (reference w ref) = 1 \<and> month (reference w ref) = 1)"
  shows "\<exists>start_date end_date.
    get_previous_month_range w self ref = Inr (start_date, end_date)
    \<and> start_date = first_instant (fst (previous_month (reference w ref)))
         (snd (previous_month (reference w ref))) (bounds_tz self (reference w ref))
    \<and> valid_datetime end_date
    \<and> tzinfo end_date = bounds_tz self (reference w ref)
    \<and> to_microseconds end_date =
        to_microseconds (first_instant (year (reference w ref)) (month (reference w ref))
          (bounds_tz self (reference w ref))) - 1
    \<and> month start_date = month end_date
    \<and> year start_date = year end_date
    \<and> dt_le start_date end_date = Inr True"
proof -
  define D where "D = reference w ref"
  define z where "z = bounds_tz self D"
  obtain y m where ym: "previous_month D = (y, m)"
    by (cases "previous_month D")
  have v: "valid_datetime D" and n: "\<not> (year D = 1 \<and> month D = 1)"
    using assms by (simp_all add: D_def)
  have range: "get_previous_month_range w self ref = Inr (first_instant y m z, last_instant y m z)"
    using get_previous_month_range_Some [OF v n ym, of w self]
    by (simp add: get_previous_month_range_reference [of w self ref] D_def z_def)
  have b: "1 \<le> y" "y \<le> 9999" "1 \<le> m" "m \<le> 12"
    using previous_month_bounds [OF v n ym] by simp_all
  have vD: "1 \<le> year D" "year D \<le> 9999" "1 \<le> month D" "month D \<le> 12"
    using v by (simp_all add: valid_datetime_def)
  have cur: "valid_datetime (first_instant (year D) (month D) z)"
    using vD by (rule valid_first_instant)
  have "previous_month (first_instant (year D) (month D) z) = (y, m)"
    using ym by (auto simp: previous_month_def first_instant_def split: if_splits)
  then have "sub_one_microsecond (first_instant (year D) (month D) z) = Inr (last_instant y m z)"
    using vD n by (intro sub_one_microsecond_first_instant) simp_all
  then have micro: "to_microseconds (last_instant y m z)
      = to_microseconds (first_instant (year D) (month D) z) - 1"
    using cur by (intro to_microseconds_sub_one_microsecond)
  have "valid_datetime (last_instant y m z)"
    using b by (rule valid_last_instant)
  moreover have "tzinfo (last_instant y m z) = z"
    by (simp add: last_instant_def)
  moreover have "month (first_instant y m z) = month (last_instant y m z)"
    "year (first_instant y m z) = year (last_instant y m z)"
    by (simp_all add: first_instant_def last_instant_def)
  ultimately show ?thesis
    using range micro dt_le_first_last [of y m z] ym
    unfolding D_def [symmetric] z_def [symmetric] by simp
qed

text \<open>
  The claim as first stated covers every reference date. In January of year 1 the month
  before does not exist in \<^verbatim>\<open>datetime\<close>'s range: subtracting one day from
  0001-01-01 raises OverflowError, and so does the resolver.
\<close>

theorem previous_month_range_overflow_counterexample:
  "get_previous_month_range local_world local_archiver (Some (mk_datetime 1 1 15 0 0 0 None))
    = Inl OverflowError"
  by (simp add: get_previous_month_range_def mk_datetime_def sub_one_day_def)

theorem previous_month_range_boundary_witness:
  "valid_datetime (reference local_world (Some (mk_datetime 2025 10 15 0 0 0 None)))
   \<and> \<not> (year (reference local_world (Some (mk_datetime 2025 10 15 0 0 0 None))) = 1
        \<and> month (reference local_world (Some (mk_datetime 2025 10 15 0 0 0 None))) = 1)
   \<and> (\<exists>start_date end_date.
        get_previous_month_range local_world local_archiver
          (Some (mk_datetime 2025 10 15 0 0 0 None)) = Inr (start_date, end_date)
        \<and> start_date = mk_datetime 2025 9 1 0 0 0 None
        \<and> to_microseconds end_date = to_microseconds (mk_datetime 2025 10 1 0 0 0 None) - 1
        \<and> month end_date = 9
        \<and> dt_le start_date end_date = Inr True)"
proof -
  let ?ref = "Some (mk_datetime 2025 10 15 0 0 0 None)"
  have v: "valid_datetime (reference local_world ?ref)"
    by (simp add: reference_def mk_datetime_def valid_datetime_def days_in_month_def)
  have n: "\<not> (year (reference local_world ?ref) = 1 \<and> month (reference local_world ?ref) = 1)"
    by (simp add: reference_def mk_datetime_def)
  from previous_month_range_boundary [OF v n, of local_archiver]
  obtain start_date end_date where
    r: "get_previous_month_range local_world local_archiver ?ref = Inr (start_date, end_date)"
    and s: "start_date = first_instant (fst (previous_month (reference local_world ?ref)))
         (snd (previous_month (reference local_world ?ref)))
         (bounds_tz local_archiver (reference local_world ?ref))"
    and e: "to_microseconds end_date =
        to_microseconds (first_instant (year (reference local_world ?ref))
          (month (reference local_world ?ref))
          (bounds_tz local_archiver (reference local_world ?ref))) - 1"
    and m: "month start_date = month end_date"
    and le: "dt_le start_date end_date = Inr True"
    by blast
  have s': "start_date = mk_datetime 2025 9 1 0 0 0 None"
    using s
    by (simp add: reference_def previous_month_def mk_datetime_def first_instant_def
        bounds_tz_def local_archiver_def)
  have e': "to_microseconds end_date = to_microseconds (mk_datetime 2025 10 1 0 0 0 None) - 1"
    using e
    by (simp add: reference_def mk_datetime_def first_instant_def bounds_tz_def
        local_archiver_def)
  have "month end_date = 9"
    using m s' by (simp add: mk_datetime_def)
  with v n r s' e' le show ?thesis
    by blast
qed

section \<open>The remote selector\<close>

lemma in_range_same_domain:
  assumes "same_domain lo x" "same_domain x hi"
  shows "in_range lo x hi = Inr (within lo x hi)"
  using assms by (simp add: in_range_def dt_le_def within_def split: bool.splits)

lemma same_domain_aware: "aware a \<Longrightarrow> aware b \<Longrightarrow> same_domain a b"
  by (simp add: same_domain_def)

lemma aware_relabel: "aware (d\<lparr>tzinfo := Some UTC\<rparr>)"
  by (simp add: aware_def)

lemma dt_fields_relabel: "dt_fields (d\<lparr>tzinfo := z\<rparr>) = dt_fields d"
  by (simp add: dt_fields_def)

lemma within_relabel: "within lo (d\<lparr>tzinfo := z\<rparr>) hi = within lo d hi"
  by (simp add: within_def dt_fields_relabel)

lemma s3_object_selected_parsed:
  assumes "aware start_date" "aware end_date"
    and "head_object w (bucket_name self) (Key obj) = Inr head_response"
    and "metadata_of head_response ''original-timestamp'' = Some timestamp_str"
    and "strptime w timestamp_str ''%Y-%m-%dT%H:%M:%S'' = Some d"
  shows "s3_object_selected w self start_date end_date obj = Inr (within start_date d end_date)"
proof -
  have "s3_file_date w self obj = Inr (d\<lparr>tzinfo := Some UTC\<rparr>)"
    using assms(3-5) by (simp add: s3_file_date_def metadata_of_def)
  moreover have "in_range start_date (d\<lparr>tzinfo := Some UTC\<rparr>) end_date
      = Inr (within start_date d end_date)"
    using assms(1,2)
    by (simp add: in_range_same_domain same_domain_aware aware_relabel within_relabel)
  ultimately show ?thesis
    by (simp add: s3_object_selected_def)
qed

lemma s3_object_selected_fallback:
  assumes "aware start_date" "aware end_date" "aware (LastModified obj)"
    and "no_usable_timestamp w self obj"
  shows "s3_object_selected w self start_date end_date obj
    = Inr (within start_date (LastModified obj) end_date)"
proof -
  have lm: "in_range start_date (LastModified obj) end_date
      = Inr (within start_date (LastModified obj) end_date)"
    using assms(1-3) by (simp add: in_range_same_domain same_domain_aware)
  have "s3_file_date w self obj = Inr (LastModified obj) \<or> (\<exists>e. s3_file_date w self obj = Inl e)"
    using assms(4)
    by (auto simp: no_usable_timestamp_def s3_file_date_def metadata_of_def
        split: sum.splits option.splits)
  then show ?thesis
    using lm by (auto simp: s3_object_selected_def)
qed

lemma s3_object_selected_total:
  assumes "aware start_date" "aware end_date" "aware (LastModified obj)"
  shows "\<exists>b. s3_object_selected w self start_date end_date obj = Inr b"
proof (cases "no_usable_timestamp w self obj")
  case True
  then show ?thesis
    using assms by (simp add: s3_object_selected_fallback)
next
  case False
  then obtain head_response timestamp_str d where
    "head_object w (bucket_name self) (Key obj) = Inr head_response"
    "metadata_of head_response ''original-timestamp'' = Some timestamp_str"
    "strptime w timestamp_str ''%Y-%m-%dT%H:%M:%S'' = Some d"
    by (auto simp: no_usable_timestamp_def split: sum.splits option.splits)
  then show ?thesis
    using assms(1,2) by (simp add: s3_object_selected_parsed)
qed

lemma s3_loop_filter:
  assumes "\<And>obj. obj \<in> set objs \<Longrightarrow> \<exists>b. s3_object_selected w self start_date end_date obj = Inr b"
  shows "s3_loop w self start_date end_date objs files =
    Inr (files @ map Key
      (filter (\<lambda>obj. s3_object_selected w self start_date end_date obj = Inr True) objs))"
  using assms
proof (induction objs arbitrary: files)
  case Nil
  then show ?case by simp
next
  case (Cons obj objs)
  then obtain b where b: "s3_object_selected w self start_date end_date obj = Inr b"
    by (meson list.set_intros(1))
  show ?case
    using Cons.IH [of "if b then files @ [Key obj] else files"] Cons.prems
    by (simp add: b)
qed

lemma list_s3_files_filter:
  assumes "aware start_date" "aware end_date"
    and "paginate w (bucket_name self) prefix = Inr pages"
    and "\<And>obj. obj \<in> set (concat (map page_contents pages)) \<Longrightarrow> aware (LastModified obj)"
  shows "list_s3_files w self prefix start_date end_date =
    Inr (map Key (filter (\<lambda>obj. s3_object_selected w self start_date end_date obj = Inr True)
      (concat (map page_contents pages))))"
proof -
  have "s3_loop w self start_date end_date (concat (map page_contents pages)) [] =
    Inr ([] @ map Key (filter (\<lambda>obj. s3_object_selected w self start_date end_date obj = Inr True)
      (concat (map page_contents pages))))"
    using assms(1,2,4) by (intro s3_loop_filter s3_object_selected_total)
  then show ?thesis
    using assms(3) by (simp add: list_s3_files_def)
qed

lemmas example_defs =
  bucket_world_def bucket_archiver_def obj_stamped_def obj_unreachable_def obj_garbled_def
  obj_plain_def obj_older_def mk_datetime_def first_instant_def last_instant_def
  days_in_month_def is_leap_def

lemmas selection_defs =
  s3_object_selected_def s3_file_date_def in_range_def dt_le_def same_domain_def aware_def
  dt_fields_def within_def metadata_of_def no_usable_timestamp_def page_contents_def

lemma s3_object_selected_effective:
  assumes "aware start_date" "aware end_date" "aware (LastModified obj)"
  shows "s3_object_selected w self start_date end_date obj
    = Inr (within start_date (effective_timestamp w self obj) end_date)"
proof (cases "no_usable_timestamp w self obj")
  case True
  then have "effective_timestamp w self obj = LastModified obj"
    by (auto simp: no_usable_timestamp_def effective_timestamp_def
        split: sum.splits option.splits)
  then show ?thesis
    using assms True by (simp add: s3_object_selected_fallback)
next
  case False
  then obtain head_response timestamp_str d where
    h: "head_object w (bucket_name self) (Key obj) = Inr head_response"
    "metadata_of head_response ''original-timestamp'' = Some timestamp_str"
    "strptime w timestamp_str ''%Y-%m-%dT%H:%M:%S'' = Some d"
    by (auto simp: no_usable_timestamp_def split: sum.splits option.splits)
  then have "effective_timestamp w self obj = d\<lparr>tzinfo := Some UTC\<rparr>"
    by (simp add: effective_timestamp_def)
  then show ?thesis
    using assms(1,2) h by (simp add: s3_object_selected_parsed within_relabel)
qed

lemma list_s3_files_effective:
  assumes "aware start_date" "aware end_date"
    and "paginate w (bucket_name self) prefix = Inr pages"
    and "\<And>obj. obj \<in> set (concat (map page_contents pages)) \<Longrightarrow> aware (LastModified obj)"
  shows "list_s3_files w self prefix start_date end_date =
    Inr (map Key (filter (\<lambda>obj. within start_date (effective_timestamp w self obj) end_date)
      (concat (map page_contents pages))))"
proof -
  let ?objs = "concat (map page_contents pages)"
  have "filter (\<lambda>obj. s3_object_selected w self start_date end_date obj = Inr True) ?objs
      = filter (\<lambda>obj. within start_date (effective_timestamp w self obj) end_date) ?objs"
    using assms(1,2,4) by (intro filter_cong refl) (simp add: s3_object_selected_effective)
  then show ?thesis
    using list_s3_files_filter [OF assms] by simp
qed

lemma key_selected_iff:
  assumes "distinct (map Key objs)" "obj \<in> set objs"
  shows "(Key obj \<in> set (map Key (filter P objs))) = P obj"
proof
  assume "Key obj \<in> set (map Key (filter P objs))"
  then obtain o' where o': "o' \<in> set objs" "P o'" "Key o' = Key obj"
    by auto
  then have "o' = obj"
    using assms by (meson distinct_map inj_onD)
  then show "P obj" using o' by simp
next
  assume "P obj"
  then show "Key obj \<in> set (map Key (filter P objs))"
    using assms(2) by auto
qed

text \<open>
  C3. Let the bounds be UTC-aware and let the store deliver its listing, with UTC-aware
  last-modified stamps. For every listed object whose metadata fetch succeeds and carries an
  \<^verbatim>\<open>original-timestamp\<close> value that \<^verbatim>\<open>strptime\<close> parses (format
  \<^verbatim>\<open>%Y-%m-%dT%H:%M:%S\<close>), the effective timestamp is the parsed value re-labelled UTC, and
  the selector decides by it, whatever the store's last-modified stamp is: the selector
  returns the keys of exactly the listed objects whose effective timestamp lies in the
  closed interval, in listing order; this object's key is returned when the parsed value
  lies in the interval, and, the listed keys being distinct, only then.
\<close>

theorem metadata_timestamp_preferred:
  assumes "aware start_date" "aware end_date"
    and "paginate w (bucket_name self) prefix = Inr pages"
    and "\<forall>listed \<in> set (concat (map page_contents pages)). aware (LastModified listed)"
    and "obj \<in> set (concat (map page_contents pages))"
    and "head_object w (bucket_name self) (Key obj) = Inr head_response"
    and "metadata_of head_response ''original-timestamp'' = Some timestamp_str"
    and "strptime w timestamp_str ''%Y-%m-%dT%H:%M:%S'' = Some d"
  shows "s3_file_date w self obj = Inr (d\<lparr>tzinfo := Some UTC\<rparr>)
    \<and> effective_timestamp w self obj = d\<lparr>tzinfo := Some UTC\<rparr>
    \<and> s3_object_selected w self start_date end_date obj = Inr (within start_date d end_date)
    \<and> s3_object_selected w self start_date end_date (obj\<lparr>LastModified := lm\<rparr>)
        = Inr (within start_date d end_date)
    \<and> s3_loop w self start_date end_date (obj # rest) files
        = s3_loop w self start_date end_date rest
            (if within start_date d end_date then files @ [Key obj] else files)
    \<and> list_s3_files w self prefix start_date end_date =
        Inr (map Key (filter
          (\<lambda>listed. within start_date (effective_timestamp w self listed) end_date)
          (concat (map page_contents pages))))
    \<and> (\<exists>keys. list_s3_files w self prefix start_date end_date = Inr keys
          \<and> (within start_date d end_date \<longrightarrow> Key obj \<in> set keys)
          \<and> (distinct (map Key (concat (map page_contents pages)))
                \<longrightarrow> (Key obj \<in> set keys) = within start_date d end_date))"
proof -
  let ?objs = "concat (map page_contents pages)"
  let ?P = "\<lambda>listed. within start_date (effective_timestamp w self listed) end_date"
  have date: "s3_file_date w self obj = Inr (d\<lparr>tzinfo := Some UTC\<rparr>)"
    using assms(6-8) by (simp add: s3_file_date_def metadata_of_def)
  have eff: "effective_timestamp w self obj = d\<lparr>tzinfo := Some UTC\<rparr>"
    using assms(6-8) by (simp add: effective_timestamp_def)
  have sel: "s3_object_selected w self start_date end_date obj = Inr (within start_date d end_date)"
    using assms(1,2,6-8) by (rule s3_object_selected_parsed)
  have "head_object w (bucket_name self) (Key (obj\<lparr>LastModified := lm\<rparr>)) = Inr head_response"
    using assms(6) by simp
  with assms(1,2) have other: "s3_object_selected w self start_date end_date
      (obj\<lparr>LastModified := lm\<rparr>) = Inr (within start_date d end_date)"
    using assms(7,8) by (rule s3_object_selected_parsed)
  have lst: "list_s3_files w self prefix start_date end_date = Inr (map Key (filter ?P ?objs))"
    using assms(1-4) by (intro list_s3_files_effective) blast+
  have P: "?P obj = within start_date d end_date"
    by (simp add: eff within_relabel)
  have pos: "within start_date d end_date \<longrightarrow> Key obj \<in> set (map Key (filter ?P ?objs))"
    using assms(5) P by auto
  have iff: "distinct (map Key ?objs)
      \<longrightarrow> (Key obj \<in> set (map Key (filter ?P ?objs))) = within start_date d end_date"
    using key_selected_iff [of ?objs obj ?P] assms(5) P by simp
  from lst pos iff have "\<exists>keys. list_s3_files w self prefix start_date end_date = Inr keys
      \<and> (within start_date d end_date \<longrightarrow> Key obj \<in> set keys)
      \<and> (distinct (map Key ?objs) \<longrightarrow> (Key obj \<in> set keys) = within start_date d end_date)"
    by blast
  with date eff sel other lst show ?thesis
    by simp
qed

theorem metadata_timestamp_preferred_witness:
  "aware (first_instant 2025 9 (Some UTC)) \<and> aware (last_instant 2025 9 (Some UTC))
   \<and> paginate bucket_world (bucket_name bucket_archiver) ''Opening/''
       = Inr [Some [obj_stamped, obj_unreachable, obj_garbled], None, Some [obj_plain, obj_older]]
   \<and> list_all (\<lambda>listed. aware (LastModified listed))
        [obj_stamped, obj_unreachable, obj_garbled, obj_plain, obj_older]
   \<and> head_object bucket_world (bucket_name bucket_archiver) (Key obj_stamped)
       = Inr (Some [''original-timestamp'' \<mapsto> ''2025-09-15T10:00:00''])
   \<and> metadata_of (Some [''original-timestamp'' \<mapsto> ''2025-09-15T10:00:00''])
       ''original-timestamp'' = Some ''2025-09-15T10:00:00''
   \<and> strptime bucket_world ''2025-09-15T10:00:00'' ''%Y-%m-%dT%H:%M:%S''
       = Some (mk_datetime 2025 9 15 10 0 0 None)
   \<and> within (first_instant 2025 9 (Some UTC)) (mk_datetime 2025 9 15 10 0 0 None)
        (last_instant 2025 9 (Some UTC))
   \<and> in_range (first_instant 2025 9 (Some UTC)) (LastModified obj_stamped)
        (last_instant 2025 9 (Some UTC)) = Inr False
   \<and> s3_object_selected bucket_world bucket_archiver (first_instant 2025 9 (Some UTC))
        (last_instant 2025 9 (Some UTC)) obj_stamped = Inr True
   \<and> (\<exists>keys. list_s3_files bucket_world bucket_archiver ''Opening/''
          (first_instant 2025 9 (Some UTC)) (last_instant 2025 9 (Some UTC)) = Inr keys
        \<and> Key obj_stamped \<in> set keys)"
proof -
  let ?lo = "first_instant 2025 9 (Some UTC)"
  let ?hi = "last_instant 2025 9 (Some UTC)"
  let ?md = "Some [''original-timestamp'' \<mapsto> ''2025-09-15T10:00:00'']"
  let ?pages = "[Some [obj_stamped, obj_unreachable, obj_garbled], None, Some [obj_plain, obj_older]]"
  have a: "aware ?lo" "aware ?hi"
    by (simp_all add: aware_def first_instant_def last_instant_def)
  have pg: "paginate bucket_world (bucket_name bucket_archiver) ''Opening/'' = Inr ?pages"
    by (simp add: bucket_world_def bucket_archiver_def)
  have l: "\<forall>listed \<in> set (concat (map page_contents ?pages)). aware (LastModified listed)"
    by (simp add: example_defs page_contents_def aware_def)
  then have l': "list_all (\<lambda>listed. aware (LastModified listed))
      [obj_stamped, obj_unreachable, obj_garbled, obj_plain, obj_older]"
    by (simp add: page_contents_def)
  have m: "obj_stamped \<in> set (concat (map page_contents ?pages))"
    by (simp add: page_contents_def)
  have h: "head_object bucket_world (bucket_name bucket_archiver) (Key obj_stamped) = Inr ?md"
    by (simp add: example_defs)
  have md: "metadata_of ?md ''original-timestamp'' = Some ''2025-09-15T10:00:00''"
    by (simp add: metadata_of_def)
  have p: "strptime bucket_world ''2025-09-15T10:00:00'' ''%Y-%m-%dT%H:%M:%S''
      = Some (mk_datetime 2025 9 15 10 0 0 None)"
    by (simp add: example_defs)
  have lm: "in_range ?lo (LastModified obj_stamped) ?hi = Inr False"
    by (simp add: example_defs selection_defs)
  have wi: "within ?lo (mk_datetime 2025 9 15 10 0 0 None) ?hi"
    by (simp add: example_defs selection_defs)
  note inst = metadata_timestamp_preferred [OF a pg l m h md p]
  from inst have "s3_object_selected bucket_world bucket_archiver ?lo ?hi obj_stamped
      = Inr (within ?lo (mk_datetime 2025 9 15 10 0 0 None) ?hi)"
    by blast
  with wi have sel: "s3_object_selected bucket_world bucket_archiver ?lo ?hi obj_stamped = Inr True"
    by simp
  from inst wi have keys: "\<exists>keys. list_s3_files bucket_world bucket_archiver ''Opening/'' ?lo ?hi
      = Inr keys \<and> Key obj_stamped \<in> set keys"
    by blast
  show ?thesis
    using a pg l' h md p wi lm sel keys by blast
qed

text \<open>
  C4. With UTC-aware bounds, a listing that the store delivers and last-modified stamps that
  are UTC-aware (as the store client reports them), the remote selector returns a list: it
  does not raise, whatever the metadata fetches do, and every listed object is processed.
  For each object whose metadata fetch fails, or whose \<^verbatim>\<open>original-timestamp\<close> is
  absent or does not parse, membership is decided by the store's last-modified stamp.
\<close>

theorem metadata_failure_falls_back:
  assumes "aware start_date" "aware end_date"
    and "paginate w (bucket_name self) prefix = Inr pages"
    and "\<forall>obj \<in> set (concat (map page_contents pages)). aware (LastModified obj)"
  shows "list_s3_files w self prefix start_date end_date =
      Inr (map Key (filter (\<lambda>obj. s3_object_selected w self start_date end_date obj = Inr True)
        (concat (map page_contents pages))))
    \<and> (\<forall>obj \<in> set (concat (map page_contents pages)).
          no_usable_timestamp w self obj \<longrightarrow>
          s3_object_selected w self start_date end_date obj
            = Inr (within start_date (LastModified obj) end_date))"
proof (intro conjI ballI impI)
  show "list_s3_files w self prefix start_date end_date =
      Inr (map Key (filter (\<lambda>obj. s3_object_selected w self start_date end_date obj = Inr True)
        (concat (map page_contents pages))))"
    using assms by (intro list_s3_files_filter) blast+
next
  fix obj
  assume "obj \<in> set (concat (map page_contents pages))" "no_usable_timestamp w self obj"
  then show "s3_object_selected w self start_date end_date obj
      = Inr (within start_date (LastModified obj) end_date)"
    using assms(1,2,4) by (intro s3_object_selected_fallback) blast+
qed

theorem metadata_failure_falls_back_witness:
  "aware (first_instant 2025 9 (Some UTC)) \<and> aware (last_instant 2025 9 (Some UTC))
   \<and> paginate bucket_world (bucket_name bucket_archiver) ''Opening/''
       = Inr [Some [obj_stamped, obj_unreachable, obj_garbled], None, Some [obj_plain, obj_older]]
   \<and> no_usable_timestamp bucket_world bucket_archiver obj_unreachable
   \<and> no_usable_timestamp bucket_world bucket_archiver obj_garbled
   \<and> no_usable_timestamp bucket_world bucket_archiver obj_plain
   \<and> list_s3_files bucket_world bucket_archiver ''Opening/'' (first_instant 2025 9 (Some UTC))
        (last_instant 2025 9 (Some UTC))
       = Inr [''Opening/TXN100001/IDD.pdf'', ''Opening/TXN100002/KYC.pdf'',
              ''Opening/TXN100004/PID.pdf'']"
proof -
  let ?lo = "first_instant 2025 9 (Some UTC)"
  let ?hi = "last_instant 2025 9 (Some UTC)"
  let ?pages = "[Some [obj_stamped, obj_unreachable, obj_garbled], None, Some [obj_plain, obj_older]]"
  have a: "aware ?lo" "aware ?hi"
    by (simp_all add: aware_def first_instant_def last_instant_def)
  have p: "paginate bucket_world (bucket_name bucket_archiver) ''Opening/'' = Inr ?pages"
    by (simp add: bucket_world_def bucket_archiver_def)
  have l: "\<forall>obj \<in> set (concat (map page_contents ?pages)). aware (LastModified obj)"
    by (simp add: example_defs page_contents_def aware_def)
  have n: "no_usable_timestamp bucket_world bucket_archiver obj_unreachable"
    "no_usable_timestamp bucket_world bucket_archiver obj_garbled"
    "no_usable_timestamp bucket_world bucket_archiver obj_plain"
    by (simp_all add: example_defs selection_defs)
  have s: "s3_object_selected bucket_world bucket_archiver ?lo ?hi obj_stamped = Inr True"
    "s3_object_selected bucket_world bucket_archiver ?lo ?hi obj_unreachable = Inr True"
    "s3_object_selected bucket_world bucket_archiver ?lo ?hi obj_garbled = Inr False"
    "s3_object_selected bucket_world bucket_archiver ?lo ?hi obj_plain = Inr True"
    "s3_object_selected bucket_world bucket_archiver ?lo ?hi obj_older = Inr False"
    by (simp_all add: example_defs selection_defs)
  from metadata_failure_falls_back [OF a p l]
  have "list_s3_files bucket_world bucket_archiver ''Opening/'' ?lo ?hi =
      Inr (map Key (filter
        (\<lambda>obj. s3_object_selected bucket_world bucket_archiver ?lo ?hi obj = Inr True)
        (concat (map page_contents ?pages))))"
    by blast
  then have "list_s3_files bucket_world bucket_archiver ''Opening/'' ?lo ?hi
      = Inr [''Opening/TXN100001/IDD.pdf'', ''Opening/TXN100002/KYC.pdf'',
             ''Opening/TXN100004/PID.pdf'']"
    by (simp add: s page_contents_def)
       (simp add: obj_stamped_def obj_unreachable_def obj_plain_def)
  with a p n show ?thesis
    by blast
qed

section \<open>The local selector\<close>


lemma example_paths:
  "path_str (Path ''data'') = ''data''"
  "path_str (path_join (Path ''data'') ''Opening'') = ''data/Opening''"
  "path_str (path_join (Path ''data'') ''Customer'') = ''data/Customer''"
  "path_str (path_join (Path ''data'') ''Spare'') = ''data/Spare''"
  by code_simp+



section \<open>The archive assembler and the orchestrator\<close>

lemma zipf_write_None:
  "zipf_write w zip_path file_key s = (None, s1)
    \<Longrightarrow> s1 = zip_write s zip_path (stored_name file_key)"
  by (auto simp: zipf_write_def zip_arcname_def split: sum.splits if_splits)


lemma write_files_None:
  assumes "write_files w self zip_path files s = (None, s')" "zip_files s zip_path = Some entries"
  shows "zip_files s' = (zip_files s)(zip_path \<mapsto> entries @ map stored_name files)
    \<and> uploaded s' = uploaded s"
  using assms
proof (induction files arbitrary: s entries)
  case Nil
  then show ?case by auto
next
  case (Cons file_key rest)
  from Cons.prems(1) obtain s1 where w1: "zipf_write w zip_path file_key s = (None, s1)"
    and step: "write_files w self zip_path rest s1 = (None, s')"
    by (auto split: sum.splits if_splits prod.splits option.splits)
  have s1: "s1 = zip_write s zip_path (stored_name file_key)"
    by (rule zipf_write_None [OF w1])
  have z: "zip_files s1 zip_path = Some (entries @ [stored_name file_key])"
    using Cons.prems(2) by (simp add: s1 zip_write_def)
  from Cons.IH [OF step z] show ?case
    using Cons.prems(2) by (auto simp: s1 zip_write_def fun_eq_iff)
qed

lemma create_zip_archive_Inr:
  assumes "create_zip_archive w self files zip_path s = (Inr n, s')"
  shows "n = length files \<and> uploaded s' = uploaded s
    \<and> (if files = [] then s' = s
        else zip_files s' = (zip_files s)(zip_path \<mapsto> map stored_name files))"
proof (cases "files = []")
  case True
  then show ?thesis
    using assms by (simp add: create_zip_archive_def)
next
  case False
  let ?s0 = "s\<lparr>zip_files := (zip_files s)(zip_path \<mapsto> [])\<rparr>"
  from assms False have w: "write_files w self zip_path files ?s0 = (None, s')" and n: "n = length files"
    by (auto simp: create_zip_archive_def split: prod.splits option.splits sum.splits)
  have "zip_files ?s0 zip_path = Some []" by simp
  from write_files_None [OF w this] show ?thesis
    using False n by simp
qed

lemma process_folder_Inr:
  assumes "process_folder w self folder month_str start_date end_date s = (Inr (n, z), s')"
  shows "\<exists>files. select_files w self folder start_date end_date = Inr files
    \<and> n = length files \<and> uploaded s' = uploaded s
    \<and> (if files = [] then z = None \<and> s' = s
        else z = Some (path_str (path_join (output_dir self) (zip_name folder month_str)))
          \<and> zip_files s' = (zip_files s)
               (path_join (output_dir self) (zip_name folder month_str)
                  \<mapsto> map stored_name files))"
proof -
  from assms obtain files where sel: "select_files w self folder start_date end_date = Inr files"
    by (auto simp: process_folder_def split: sum.splits)
  show ?thesis
  proof (cases "files = []")
    case True
    then show ?thesis
      using assms sel by (simp add: process_folder_def)
  next
    case False
    let ?p = "path_join (output_dir self) (zip_name folder month_str)"
    from assms sel False have c: "create_zip_archive w self files ?p s = (Inr n, s')"
      and z: "z = Some (path_str ?p)"
      by (auto simp: process_folder_def Let_def split: prod.splits sum.splits)
    from create_zip_archive_Inr [OF c] show ?thesis
      using sel False z by simp
  qed
qed

lemma upload_one_zip_files:
  "upload_one w self z s = (r, s') \<Longrightarrow> zip_files s' = zip_files s"
  by (auto simp: upload_one_def Let_def split: option.splits if_splits sum.splits)

lemma archive_previous_month_Inr:
  assumes "archive_previous_month w self ref upload s = (Inr st, s')"
  shows "\<exists>start_date end_date s1 s2.
    get_previous_month_range w self ref = Inr (start_date, end_date)
    \<and> stats_month st = strftime_Y_m start_date
    \<and> process_folder w self ''Opening'' (strftime_Y_m start_date) start_date end_date s
        = (Inr (opening_files st, opening_zip st), s1)
    \<and> process_folder w self ''Customer'' (strftime_Y_m start_date) start_date end_date s1
        = (Inr (customer_files st, customer_zip st), s2)
    \<and> zip_files s' = zip_files s2"
proof -
  from assms obtain start_date end_date where
    range: "get_previous_month_range w self ref = Inr (start_date, end_date)"
    by (auto simp: archive_previous_month_def split: sum.splits)
  let ?m = "strftime_Y_m start_date"
  from assms range obtain n1 z1 s1 where
    p1: "process_folder w self ''Opening'' ?m start_date end_date s = (Inr (n1, z1), s1)"
    by (auto simp: archive_previous_month_def Let_def split: sum.splits prod.splits)
  from assms range p1 obtain n2 z2 s2 where
    p2: "process_folder w self ''Customer'' ?m start_date end_date s1 = (Inr (n2, z2), s2)"
    by (auto simp: archive_previous_month_def Let_def split: sum.splits prod.splits)
  let ?st = "\<lparr>stats_month = ?m, opening_files = n1, customer_files = n2, opening_zip = z1,
    customer_zip = z2\<rparr>"
  have "st = ?st \<and> zip_files s' = zip_files s2"
  proof (cases "upload \<and> use_s3 self")
    case False
    then show ?thesis
      using assms range p1 p2 by (auto simp: archive_previous_month_def Let_def)
  next
    case True
    then obtain s3 where u1: "upload_one w self z1 s2 = (None, s3)"
      and u2: "upload_one w self z2 s3 = (None, s')" and st: "st = ?st"
      using assms range p1 p2
      by (auto simp: archive_previous_month_def Let_def split: prod.splits option.splits)
    from upload_one_zip_files [OF u1] upload_one_zip_files [OF u2] st show ?thesis
      by simp
  qed
  then show ?thesis
    using range p1 p2 by auto
qed





lemma archive_previous_month_selects:
  assumes "archive_previous_month w self ref upload s = (Inr st, s')"
  shows "\<exists>start_date end_date fo fc.
    get_previous_month_range w self ref = Inr (start_date, end_date)
    \<and> select_files w self ''Opening'' start_date end_date = Inr fo
    \<and> select_files w self ''Customer'' start_date end_date = Inr fc"
proof -
  from archive_previous_month_Inr [OF assms] obtain start_date end_date s1 s2 where
    range: "get_previous_month_range w self ref = Inr (start_date, end_date)"
    and p1: "process_folder w self ''Opening'' (strftime_Y_m start_date) start_date end_date s
        = (Inr (opening_files st, opening_zip st), s1)"
    and p2: "process_folder w self ''Customer'' (strftime_Y_m start_date) start_date end_date s1
        = (Inr (customer_files st, customer_zip st), s2)"
    by auto
  from process_folder_Inr [OF p1] process_folder_Inr [OF p2] range show ?thesis
    by auto
qed

lemma archive_previous_month_nothing_selected:
  assumes "get_previous_month_range w self ref = Inr (start_date, end_date)"
    and "select_files w self ''Opening'' start_date end_date = Inr []"
    and "select_files w self ''Customer'' start_date end_date = Inr []"
  shows "archive_previous_month w self ref upload s =
    (Inr \<lparr>stats_month = strftime_Y_m start_date, opening_files = 0, customer_files = 0,
          opening_zip = None, customer_zip = None\<rparr>, s)"
  using assms
  by (simp add: archive_previous_month_def process_folder_def upload_one_def Let_def)

lemma digit_not_sep: "k < 10 \<Longrightarrow> CHR ''/'' \<noteq> char_of (48 + k :: nat)"
proof
  assume k: "k < 10" and "CHR ''/'' = char_of (48 + k)"
  then have "of_char (char_of (48 + k) :: char) = (of_char CHR ''/'' :: nat)"
    by simp
  then show False
    using k by (simp add: of_char_of)
qed

lemma decimal_no_sep: "CHR ''/'' \<notin> set (decimal n)"
proof (induction n rule: decimal.induct)
  case (1 n)
  show ?case
  proof (cases "n < 10")
    case True
    then show ?thesis
      by (subst decimal.simps) (simp add: digit_not_sep)
  next
    case False
    then show ?thesis
      using 1 by (subst decimal.simps) (simp add: digit_not_sep)
  qed
qed

lemma zero_padded_no_sep: "CHR ''/'' \<notin> set (zero_padded k n)"
  by (induction k arbitrary: n) (simp_all add: digit_not_sep)

lemma strftime_Y_m_no_sep: "CHR ''/'' \<notin> set (strftime_Y_m d)"
  by (simp add: strftime_Y_m_def decimal_no_sep zero_padded_no_sep)






lemma split_sep_plain: "CHR ''/'' \<notin> set s \<Longrightarrow> split_sep s = [s]"
  by (induction s) auto

lemma Path_plain:
  assumes "CHR ''/'' \<notin> set s" "s \<noteq> []" "s \<noteq> ''.''"
  shows "Path s = ([], [s])"
proof -
  have "take 1 s \<noteq> ''/''"
    using assms(1) by (cases s) auto
  then show ?thesis
    using assms by (simp add: Path_def initial_slashes_def split_sep_plain)
qed

lemma zip_name_plain:
  assumes "CHR ''/'' \<notin> set folder" "CHR ''/'' \<notin> set month_str"
  shows "Path (zip_name folder month_str) = ([], [zip_name folder month_str])"
proof (rule Path_plain)
  show "CHR ''/'' \<notin> set (zip_name folder month_str)"
    using assms by (simp add: zip_name_def)
  show "zip_name folder month_str \<noteq> []"
    by (simp add: zip_name_def)
  have "length (zip_name folder month_str) \<noteq> 1"
    by (simp add: zip_name_def)
  then show "zip_name folder month_str \<noteq> ''.''"
    by auto
qed

lemma path_join_zip_name:
  assumes "CHR ''/'' \<notin> set folder" "CHR ''/'' \<notin> set month_str"
  shows "path_join d (zip_name folder month_str) = (fst d, snd d @ [zip_name folder month_str])"
  by (simp add: path_join_def zip_name_plain [OF assms])


lemma zip_paths_differ:
  "path_join d (zip_name ''Opening'' (strftime_Y_m a))
    \<noteq> path_join d (zip_name ''Customer'' (strftime_Y_m b))"
proof -
  have "zip_name ''Opening'' (strftime_Y_m a) \<noteq> zip_name ''Customer'' (strftime_Y_m b)"
    by (simp add: zip_name_def)
  then show ?thesis
    by (simp add: path_join_zip_name strftime_Y_m_no_sep)
qed

lemma archive_previous_month_result:
  assumes run: "archive_previous_month w self ref upload s = (Inr st, s')"
    and range: "get_previous_month_range w self ref = Inr (start_date, end_date)"
    and sel_o: "select_files w self ''Opening'' start_date end_date = Inr fo"
    and sel_c: "select_files w self ''Customer'' start_date end_date = Inr fc"
  shows "stats_month st = strftime_Y_m start_date"
    and "opening_files st = length fo" and "customer_files st = length fc"
    and "opening_zip st = (if fo = [] then None
          else Some (path_str (path_join (output_dir self)
            (zip_name ''Opening'' (strftime_Y_m start_date)))))"
    and "customer_zip st = (if fc = [] then None
          else Some (path_str (path_join (output_dir self)
            (zip_name ''Customer'' (strftime_Y_m start_date)))))"
    and "zip_files s' (path_join (output_dir self) (zip_name ''Opening'' (strftime_Y_m start_date)))
          = (if fo = [] then
               zip_files s (path_join (output_dir self) (zip_name ''Opening'' (strftime_Y_m start_date)))
             else Some (map stored_name fo))"
    and "zip_files s' (path_join (output_dir self) (zip_name ''Customer'' (strftime_Y_m start_date)))
          = (if fc = [] then
               zip_files s (path_join (output_dir self) (zip_name ''Customer'' (strftime_Y_m start_date)))
             else Some (map stored_name fc))"
proof -
  let ?m = "strftime_Y_m start_date"
  let ?po = "path_join (output_dir self) (zip_name ''Opening'' ?m)"
  let ?pc = "path_join (output_dir self) (zip_name ''Customer'' ?m)"
  from archive_previous_month_Inr [OF run] range obtain s1 s2 where
    m: "stats_month st = ?m"
    and p1: "process_folder w self ''Opening'' ?m start_date end_date s
        = (Inr (opening_files st, opening_zip st), s1)"
    and p2: "process_folder w self ''Customer'' ?m start_date end_date s1
        = (Inr (customer_files st, customer_zip st), s2)"
    and z: "zip_files s' = zip_files s2"
    by auto
  from process_folder_Inr [OF p1] sel_o have o:
    "opening_files st = length fo"
    "if fo = [] then opening_zip st = None \<and> s1 = s
     else opening_zip st = Some (path_str ?po)
       \<and> zip_files s1 = (zip_files s)(?po \<mapsto> map stored_name fo)"
    by auto
  from process_folder_Inr [OF p2] sel_c have c:
    "customer_files st = length fc"
    "if fc = [] then customer_zip st = None \<and> s2 = s1
     else customer_zip st = Some (path_str ?pc)
       \<and> zip_files s2 = (zip_files s1)(?pc \<mapsto> map stored_name fc)"
    by auto
  have ne: "?po \<noteq> ?pc" by (rule zip_paths_differ)
  show "stats_month st = ?m" by (rule m)
  show "opening_files st = length fo" by (rule o(1))
  show "customer_files st = length fc" by (rule c(1))
  show "opening_zip st = (if fo = [] then None else Some (path_str ?po))"
    using o(2) by (simp split: if_splits)
  show "customer_zip st = (if fc = [] then None else Some (path_str ?pc))"
    using c(2) by (simp split: if_splits)
  show "zip_files s' ?po = (if fo = [] then zip_files s ?po else Some (map stored_name fo))"
    using o(2) c(2) z ne by (auto split: if_splits)
  show "zip_files s' ?pc = (if fc = [] then zip_files s ?pc else Some (map stored_name fc))"
    using o(2) c(2) z ne by (auto split: if_splits)
qed

lemma strftime_Y_m_september: "strftime_Y_m (first_instant 2025 9 z) = ''2025-09''"
  by code_simp

lemmas local_example_defs =
  local_world_def local_archiver_def mk_datetime_def first_instant_def last_instant_def
  days_in_month_def is_leap_def

lemma local_range:
  "get_previous_month_range local_world local_archiver (Some (mk_datetime 2025 10 15 0 0 0 None))
    = Inr (first_instant 2025 9 None, last_instant 2025 9 None)"
  by (simp add: get_previous_month_range_def sub_one_day_def sub_one_microsecond_def
      local_example_defs)

lemma local_select_opening:
  "select_files local_world local_archiver ''Opening'' (first_instant 2025 9 None)
     (last_instant 2025 9 None) = Inr [''Opening/TXN100000/IDD.pdf'']"
  by (simp add: select_files_def list_local_files_def example_paths in_range_def dt_le_def
      same_domain_def aware_def dt_fields_def local_example_defs)

lemma local_select_customer:
  "select_files local_world local_archiver ''Customer'' (first_instant 2025 9 None)
     (last_instant 2025 9 None) = Inr []"
  by (simp add: select_files_def list_local_files_def example_paths local_example_defs)

lemma example_zip_paths:
  "path_join (Path ''archives'') (zip_name ''Opening'' ''2025-09'')
     = Path ''archives/Opening_2025-09.zip''"
  "path_str (Path ''archives/Opening_2025-09.zip'') = ''archives/Opening_2025-09.zip''"
  "path_name (Path ''archives/Opening_2025-09.zip'') = ''Opening_2025-09.zip''"
  "stored_name ''Opening/TXN100000/IDD.pdf'' = ''Opening/TXN100000/IDD.pdf''"
  by code_simp+

lemma local_process_opening:
  "process_folder local_world local_archiver ''Opening'' ''2025-09'' (first_instant 2025 9 None)
     (last_instant 2025 9 None) empty_state =
   (Inr (1, Some ''archives/Opening_2025-09.zip''),
    \<lparr>zip_files = [Path ''archives/Opening_2025-09.zip'' \<mapsto> [''Opening/TXN100000/IDD.pdf'']],
     uploaded = []\<rparr>)"
proof -
  have p: "path_join (output_dir local_archiver) (zip_name ''Opening'' ''2025-09'')
      = Path ''archives/Opening_2025-09.zip''"
    by (simp add: local_archiver_def example_zip_paths)
  have u: "use_s3 local_archiver = False"
    by (simp add: local_archiver_def)
  have o: "zipfile_open local_world = (\<lambda>p. Inr ())" "zipfile_write local_world = (\<lambda>k. Inr ())"
    by (simp_all add: local_world_def)
  show ?thesis
    unfolding process_folder_def local_select_opening p
    by (simp add: create_zip_archive_def zipf_write_def zip_arcname_def zip_write_def
        empty_state_def u o example_zip_paths)
qed

lemma local_process_customer:
  "process_folder local_world local_archiver ''Customer'' ''2025-09'' (first_instant 2025 9 None)
     (last_instant 2025 9 None) s = (Inr (0, None), s)"
  unfolding process_folder_def local_select_customer by simp

lemma local_run:
  "archive_previous_month local_world local_archiver (Some (mk_datetime 2025 10 15 0 0 0 None))
     False empty_state =
   (Inr \<lparr>stats_month = ''2025-09'', opening_files = 1, customer_files = 0,
         opening_zip = Some ''archives/Opening_2025-09.zip'', customer_zip = None\<rparr>,
    \<lparr>zip_files = [Path ''archives/Opening_2025-09.zip'' \<mapsto> [''Opening/TXN100000/IDD.pdf'']],
     uploaded = []\<rparr>)"
  unfolding archive_previous_month_def local_range
  by (simp add: strftime_Y_m_september local_process_opening local_process_customer)

text \<open>
  C5. Called with an empty file list, the archive assembler creates no ZIP and returns the
  count zero, without error. When the selector returns the empty list for both folders the
  orchestrator returns statistics with zero counts and no archive paths and leaves the
  output directory as it was; in every completed run, a folder with an empty selection has
  count zero, no archive path, and no archive written under its name.
\<close>

theorem empty_selection_no_archive:
  "create_zip_archive w self [] zip_path s = (Inr 0, s)
   \<and> (get_previous_month_range w self ref = Inr (start_date, end_date)
        \<and> select_files w self ''Opening'' start_date end_date = Inr []
        \<and> select_files w self ''Customer'' start_date end_date = Inr []
      \<longrightarrow> archive_previous_month w self ref upload s =
            (Inr \<lparr>stats_month = strftime_Y_m start_date, opening_files = 0,
                  customer_files = 0, opening_zip = None, customer_zip = None\<rparr>, s))
   \<and> (archive_previous_month w self ref upload s = (Inr st, s')
        \<and> get_previous_month_range w self ref = Inr (start_date, end_date)
        \<and> select_files w self ''Opening'' start_date end_date = Inr fo
        \<and> select_files w self ''Customer'' start_date end_date = Inr fc
      \<longrightarrow> (fo = [] \<longrightarrow> opening_files st = 0 \<and> opening_zip st = None
              \<and> zip_files s' (path_join (output_dir self)
                    (zip_name ''Opening'' (strftime_Y_m start_date)))
                  = zip_files s (path_join (output_dir self)
                    (zip_name ''Opening'' (strftime_Y_m start_date))))
          \<and> (fc = [] \<longrightarrow> customer_files st = 0 \<and> customer_zip st = None
              \<and> zip_files s' (path_join (output_dir self)
                    (zip_name ''Customer'' (strftime_Y_m start_date)))
                  = zip_files s (path_join (output_dir self)
                    (zip_name ''Customer'' (strftime_Y_m start_date)))))"
proof (intro conjI impI; (elim conjE)?)
  show "create_zip_archive w self [] zip_path s = (Inr 0, s)"
    by (simp add: create_zip_archive_def)
next
  assume "get_previous_month_range w self ref = Inr (start_date, end_date)"
    "select_files w self ''Opening'' start_date end_date = Inr []"
    "select_files w self ''Customer'' start_date end_date = Inr []"
  then show "archive_previous_month w self ref upload s =
      (Inr \<lparr>stats_month = strftime_Y_m start_date, opening_files = 0, customer_files = 0,
            opening_zip = None, customer_zip = None\<rparr>, s)"
    by (rule archive_previous_month_nothing_selected)
next
  assume r: "archive_previous_month w self ref upload s = (Inr st, s')"
    "get_previous_month_range w self ref = Inr (start_date, end_date)"
    "select_files w self ''Opening'' start_date end_date = Inr fo"
    "select_files w self ''Customer'' start_date end_date = Inr fc"
  note res = archive_previous_month_result [OF r]
  {
    assume "fo = []"
    with res(2,4,6) show "opening_files st = 0" "opening_zip st = None"
      "zip_files s' (path_join (output_dir self) (zip_name ''Opening'' (strftime_Y_m start_date)))
        = zip_files s (path_join (output_dir self) (zip_name ''Opening'' (strftime_Y_m start_date)))"
      by simp_all
  }
  {
    assume "fc = []"
    with res(3,5,7) show "customer_files st = 0" "customer_zip st = None"
      "zip_files s' (path_join (output_dir self) (zip_name ''Customer'' (strftime_Y_m start_date)))
        = zip_files s (path_join (output_dir self) (zip_name ''Customer'' (strftime_Y_m start_date)))"
      by simp_all
  }
qed


lemma strftime_Y_m_october: "strftime_Y_m (first_instant 2025 10 z) = ''2025-10''"
  by code_simp

lemma local_range_october:
  "get_previous_month_range local_world local_archiver None
    = Inr (first_instant 2025 10 None, last_instant 2025 10 None)"
  by (simp add: get_previous_month_range_def sub_one_day_def sub_one_microsecond_def
      local_example_defs)

theorem empty_selection_no_archive_witness:
  "get_previous_month_range local_world local_archiver None
     = Inr (first_instant 2025 10 None, last_instant 2025 10 None)
   \<and> select_files local_world local_archiver ''Opening'' (first_instant 2025 10 None)
       (last_instant 2025 10 None) = Inr []
   \<and> select_files local_world local_archiver ''Customer'' (first_instant 2025 10 None)
       (last_instant 2025 10 None) = Inr []
   \<and> archive_previous_month local_world local_archiver None False empty_state =
       (Inr \<lparr>stats_month = ''2025-10'', opening_files = 0, customer_files = 0,
             opening_zip = None, customer_zip = None\<rparr>, empty_state)"
proof -
  let ?lo = "first_instant 2025 10 None"
  let ?hi = "last_instant 2025 10 None"
  have o: "select_files local_world local_archiver ''Opening'' ?lo ?hi = Inr []"
    by (simp add: select_files_def list_local_files_def example_paths in_range_def dt_le_def
        same_domain_def aware_def dt_fields_def local_example_defs)
  have c: "select_files local_world local_archiver ''Customer'' ?lo ?hi = Inr []"
    by (simp add: select_files_def list_local_files_def example_paths local_example_defs)
  from empty_selection_no_archive
    [where w = local_world and self = local_archiver and ref = None and s = empty_state
      and start_date = ?lo and end_date = ?hi and upload = False]
  have "archive_previous_month local_world local_archiver None False empty_state =
      (Inr \<lparr>stats_month = strftime_Y_m ?lo, opening_files = 0, customer_files = 0,
            opening_zip = None, customer_zip = None\<rparr>, empty_state)"
    using local_range_october o c by blast
  then show ?thesis
    using local_range_october o c by (simp add: strftime_Y_m_october)
qed
















text \<open>
  C10. In the statistics of every completed run, for each folder of Opening and Customer
  the archive path is present exactly when the file count is positive, and the count is
  the number of files the selector returned for that folder.
\<close>

theorem statistics_path_iff_count:
  assumes "archive_previous_month w self ref upload s = (Inr st, s')"
  shows "\<exists>start_date end_date fo fc.
    get_previous_month_range w self ref = Inr (start_date, end_date)
    \<and> select_files w self ''Opening'' start_date end_date = Inr fo
    \<and> select_files w self ''Customer'' start_date end_date = Inr fc
    \<and> opening_files st = length fo
    \<and> customer_files st = length fc
    \<and> (opening_zip st \<noteq> None) = (0 < opening_files st)
    \<and> (customer_zip st \<noteq> None) = (0 < customer_files st)"
proof -
  from archive_previous_month_selects [OF assms] obtain start_date end_date fo fc where
    range: "get_previous_month_range w self ref = Inr (start_date, end_date)"
    and o: "select_files w self ''Opening'' start_date end_date = Inr fo"
    and c: "select_files w self ''Customer'' start_date end_date = Inr fc"
    by blast
  note res = archive_previous_month_result [OF assms range o c]
  have "(opening_zip st \<noteq> None) = (0 < opening_files st)"
    using res(2,4) by simp
  moreover have "(customer_zip st \<noteq> None) = (0 < customer_files st)"
    using res(3,5) by simp
  ultimately show ?thesis
    using range o c res(2,3)
    by (intro exI [of _ start_date] exI [of _ end_date] exI [of _ fo] exI [of _ fc]) simp
qed

theorem statistics_path_iff_count_witness:
  "archive_previous_month local_world local_archiver (Some (mk_datetime 2025 10 15 0 0 0 None))
     False empty_state =
     (Inr \<lparr>stats_month = ''2025-09'', opening_files = 1, customer_files = 0,
           opening_zip = Some ''archives/Opening_2025-09.zip'', customer_zip = None\<rparr>,
      \<lparr>zip_files = [Path ''archives/Opening_2025-09.zip'' \<mapsto> [''Opening/TXN100000/IDD.pdf'']],
       uploaded = []\<rparr>)
   \<and> (\<exists>start_date end_date fo fc.
        get_previous_month_range local_world local_archiver
          (Some (mk_datetime 2025 10 15 0 0 0 None)) = Inr (start_date, end_date)
        \<and> select_files local_world local_archiver ''Opening'' start_date end_date = Inr fo
        \<and> select_files local_world local_archiver ''Customer'' start_date end_date = Inr fc
        \<and> length fo = 1 \<and> length fc = 0)"
proof -
  from statistics_path_iff_count [OF local_run]
  obtain start_date end_date fo fc where
    "get_previous_month_range local_world local_archiver
        (Some (mk_datetime 2025 10 15 0 0 0 None)) = Inr (start_date, end_date)"
    "select_files local_world local_archiver ''Opening'' start_date end_date = Inr fo"
    "select_files local_world local_archiver ''Customer'' start_date end_date = Inr fc"
    "1 = length fo" "0 = length fc"
    by auto
  then show ?thesis
    using local_run by (metis (no_types))
qed

section \<open>The command line\<close>

lemma main_invalid_arguments:
  assumes "invalid_arguments w a"
  shows "main w a s = parser_error
    (if \<not> truthy (bucket a) \<and> \<not> truthy (local_dir a)
     then ''Either --bucket or --local-dir must be specified''
     else if truthy (bucket a) \<and> truthy (local_dir a)
     then ''Cannot specify both --bucket and --local-dir''
     else ''Invalid date format: '' @ the (date a) @ ''. Use YYYY-MM-DD'') s"
  using assms
  by (auto simp: invalid_arguments_def main_def parse_reference_date_def)

text \<open>
  C6, as amended. For every invocation with an invalid argument combination (both
  \<^verbatim>\<open>--bucket\<close> and \<^verbatim>\<open>--local-dir\<close> given, neither given, or a non-empty
  \<^verbatim>\<open>--date\<close> value that does not parse) the process exits with code 2, emits a message
  and produces no ZIP file. For every invocation with valid arguments whose archiver is
  constructed, the process exits with code 0 when the run completes without exception, and
  with code 1 and a message when the run raises.
\<close>

theorem cli_exit_codes:
  "(invalid_arguments w a \<longrightarrow>
      exit_code (main w a s) = 2 \<and> stderr (main w a s) \<noteq> [] \<and> final (main w a s) = s)
   \<and> (\<not> invalid_arguments w a
        \<and> parse_reference_date w a = Inr ref
        \<and> init w (if truthy (bucket a) then the (bucket a) else ''local'') (output_arg a)
            (truthy (bucket a)) (local_dir a) = Inr archiver
      \<longrightarrow> (archive_previous_month w archiver ref (upload_to_s3 a) s = (Inr st, s')
            \<longrightarrow> exit_code (main w a s) = 0 \<and> stderr (main w a s) = []
                \<and> final (main w a s) = s')
          \<and> (archive_previous_month w archiver ref (upload_to_s3 a) s = (Inl e, s')
            \<longrightarrow> exit_code (main w a s) = 1 \<and> stderr (main w a s) = [Error_line e]
                \<and> final (main w a s) = s'))"
proof (intro conjI impI; (elim conjE)?)
  assume "invalid_arguments w a"
  then show "exit_code (main w a s) = 2" "stderr (main w a s) \<noteq> []" "final (main w a s) = s"
    by (simp_all add: main_invalid_arguments parser_error_def)
next
  assume v: "\<not> invalid_arguments w a" "parse_reference_date w a = Inr ref"
    "init w (if truthy (bucket a) then the (bucket a) else ''local'') (output_arg a)
      (truthy (bucket a)) (local_dir a) = Inr archiver"
  {
    assume "archive_previous_month w archiver ref (upload_to_s3 a) s = (Inr st, s')"
    with v show "exit_code (main w a s) = 0" "stderr (main w a s) = []"
      "final (main w a s) = s'"
      by (auto simp: invalid_arguments_def main_def Let_def)
  }
  {
    assume "archive_previous_month w archiver ref (upload_to_s3 a) s = (Inl e, s')"
    with v show "exit_code (main w a s) = 1" "stderr (main w a s) = [Error_line e]"
      "final (main w a s) = s'"
      by (auto simp: invalid_arguments_def main_def Let_def)
  }
qed

text \<open>
  The claim as first stated gives exit code 1 for an invalid argument combination. The
  checks end in \<^verbatim>\<open>parser.error\<close>, which leaves the process with status 2.
\<close>

theorem cli_both_sources_counterexample:
  "exit_code (main local_world both_given_args empty_state) = 2
   \<and> exit_code (main local_world both_given_args empty_state) \<noteq> 1"
  by (simp add: main_def both_given_args_def truthy_def parser_error_def)

lemma other_bucket_run:
  "archive_previous_month bucket_world
     \<lparr>bucket_name = ''other-bucket'', output_dir = Path ''archives'', use_s3 = True,
      local_data_dir = None\<rparr> None False empty_state = (Inl ClientError, empty_state)"
proof -
  have "get_previous_month_range bucket_world
     \<lparr>bucket_name = ''other-bucket'', output_dir = Path ''archives'', use_s3 = True,
      local_data_dir = None\<rparr> None
    = Inr (first_instant 2025 9 (Some UTC), last_instant 2025 9 (Some UTC))"
    by (simp add: get_previous_month_range_def sub_one_day_def sub_one_microsecond_def
        bucket_world_def mk_datetime_def first_instant_def last_instant_def days_in_month_def)
  then show ?thesis
    unfolding archive_previous_month_def
    by (simp add: process_folder_def select_files_def list_s3_files_def bucket_world_def)
qed

theorem cli_exit_codes_witness:
  "invalid_arguments local_world both_given_args
   \<and> exit_code (main local_world both_given_args empty_state) = 2
   \<and> stderr (main local_world both_given_args empty_state) \<noteq> []
   \<and> final (main local_world both_given_args empty_state) = empty_state
   \<and> \<not> invalid_arguments local_world local_args
   \<and> exit_code (main local_world local_args empty_state) = 0
   \<and> zip_files (final (main local_world local_args empty_state))
       (Path ''archives/Opening_2025-09.zip'')
       = Some [''Opening/TXN100000/IDD.pdf'']
   \<and> \<not> invalid_arguments bucket_world other_bucket_args
   \<and> exit_code (main bucket_world other_bucket_args empty_state) = 1
   \<and> stderr (main bucket_world other_bucket_args empty_state) = [Error_line ClientError]"
proof -
  have i1: "invalid_arguments local_world both_given_args"
    by (simp add: invalid_arguments_def both_given_args_def truthy_def)
  from cli_exit_codes [where w = local_world and a = both_given_args and s = empty_state] i1
  have r1: "exit_code (main local_world both_given_args empty_state) = 2"
    "stderr (main local_world both_given_args empty_state) \<noteq> []"
    "final (main local_world both_given_args empty_state) = empty_state"
    by blast+
  have i2: "\<not> invalid_arguments local_world local_args"
    by (simp add: invalid_arguments_def local_args_def truthy_def local_world_def)
  have p2: "parse_reference_date local_world local_args
      = Inr (Some (mk_datetime 2025 10 15 0 0 0 None))"
    by (simp add: parse_reference_date_def local_args_def truthy_def local_world_def)
  have a2: "init local_world
      (if truthy (bucket local_args) then the (bucket local_args) else ''local'')
      (output_arg local_args) (truthy (bucket local_args)) (local_dir local_args)
      = Inr local_archiver"
    by (simp add: init_def local_args_def truthy_def local_world_def local_archiver_def
        example_paths)
  have u2: "upload_to_s3 local_args = False"
    by (simp add: local_args_def)
  from cli_exit_codes [where w = local_world and a = local_args and s = empty_state
      and ref = "Some (mk_datetime 2025 10 15 0 0 0 None)" and archiver = local_archiver]
    i2 p2 a2 local_run
  have r2: "exit_code (main local_world local_args empty_state) = 0"
    "final (main local_world local_args empty_state) =
      \<lparr>zip_files = [Path ''archives/Opening_2025-09.zip'' \<mapsto> [''Opening/TXN100000/IDD.pdf'']],
       uploaded = []\<rparr>"
    unfolding u2 by blast+
  have i3: "\<not> invalid_arguments bucket_world other_bucket_args"
    by (simp add: invalid_arguments_def other_bucket_args_def truthy_def)
  have p3: "parse_reference_date bucket_world other_bucket_args = Inr None"
    by (simp add: parse_reference_date_def other_bucket_args_def truthy_def)
  have a3: "init bucket_world
      (if truthy (bucket other_bucket_args) then the (bucket other_bucket_args) else ''local'')
      (output_arg other_bucket_args) (truthy (bucket other_bucket_args))
      (local_dir other_bucket_args)
      = Inr \<lparr>bucket_name = ''other-bucket'', output_dir = Path ''archives'', use_s3 = True,
          local_data_dir = None\<rparr>"
    by (simp add: init_def other_bucket_args_def truthy_def bucket_world_def)
  have u3: "upload_to_s3 other_bucket_args = False"
    by (simp add: other_bucket_args_def)
  from cli_exit_codes [where w = bucket_world and a = other_bucket_args and s = empty_state
      and ref = None and archiver = "\<lparr>bucket_name = ''other-bucket'', output_dir = Path ''archives'',
        use_s3 = True, local_data_dir = None\<rparr>"]
    i3 p3 a3 other_bucket_run
  have r3: "exit_code (main bucket_world other_bucket_args empty_state) = 1"
    "stderr (main bucket_world other_bucket_args empty_state) = [Error_line ClientError]"
    unfolding u3 by blast+
  show ?thesis
    using i1 r1 i2 r2 i3 r3 by simp
qed

section \<open>The comparison domain\<close>

lemma sub_one_day_tzinfo: "sub_one_day d = Inr p \<Longrightarrow> tzinfo p = tzinfo d"
  by (auto simp: sub_one_day_def split: if_splits)

lemma sub_one_microsecond_tzinfo: "sub_one_microsecond d = Inr p \<Longrightarrow> tzinfo p = tzinfo d"
  by (auto simp: sub_one_microsecond_def split: if_splits sum.splits dest: sub_one_day_tzinfo)

lemma get_previous_month_range_tzinfo:
  assumes "get_previous_month_range w self ref = Inr (start_date, end_date)"
  shows "tzinfo start_date = bounds_tz self (reference w ref)"
    and "tzinfo end_date = bounds_tz self (reference w ref)"
proof -
  let ?first = "(reference w ref)\<lparr>day := 1, hour := 0, minute := 0, second := 0,
    microsecond := 0\<rparr>"
  from assms obtain p q where p: "sub_one_day ?first = Inr p"
    and q: "sub_one_microsecond ?first = Inr q"
    and r: "(start_date, end_date) =
      (if use_s3 self
       then (p\<lparr>day := 1, hour := 0, minute := 0, second := 0, microsecond := 0,
               tzinfo := Some UTC\<rparr>, q\<lparr>tzinfo := Some UTC\<rparr>)
       else (p\<lparr>day := 1, hour := 0, minute := 0, second := 0, microsecond := 0\<rparr>, q))"
    by (auto simp: get_previous_month_range_def reference_def Let_def
        split: sum.splits if_splits option.splits)
  from sub_one_day_tzinfo [OF p] sub_one_microsecond_tzinfo [OF q] r
  show "tzinfo start_date = bounds_tz self (reference w ref)"
    and "tzinfo end_date = bounds_tz self (reference w ref)"
    by (auto simp: bounds_tz_def split: if_splits)
qed

lemma in_range_traced_result: "fst (in_range_traced lo x hi t) = in_range lo x hi"
  by (simp add: in_range_traced_def dt_le_traced_def in_range_def split: sum.splits bool.splits)

lemma in_range_traced_all:
  assumes "R (lo, x)" "R (x, hi)" "list_all R t"
  shows "list_all R (snd (in_range_traced lo x hi t))"
  using assms
  by (simp add: in_range_traced_def dt_le_traced_def split: sum.splits bool.splits)

lemma s3_object_selected_traced_result:
  "fst (s3_object_selected_traced w self start_date end_date obj t)
    = s3_object_selected w self start_date end_date obj"
proof (cases "s3_file_date w self obj")
  case (Inl e)
  then show ?thesis
    by (simp add: s3_object_selected_traced_def s3_object_selected_def in_range_traced_result)
next
  case (Inr file_date)
  obtain r t' where c: "in_range_traced start_date file_date end_date t = (r, t')"
    by (cases "in_range_traced start_date file_date end_date t")
  then have r: "in_range start_date file_date end_date = r"
    using in_range_traced_result [of start_date file_date end_date t] by simp
  show ?thesis
    by (cases r)
      (simp_all add: s3_object_selected_traced_def s3_object_selected_def Inr c r
        in_range_traced_result)
qed

lemma s3_object_selected_traced_all:
  assumes "R (start_date, LastModified obj)" "R (LastModified obj, end_date)"
    and "\<And>file_date. s3_file_date w self obj = Inr file_date
          \<Longrightarrow> R (start_date, file_date) \<and> R (file_date, end_date)"
    and "list_all R t"
  shows "list_all R (snd (s3_object_selected_traced w self start_date end_date obj t))"
proof (cases "s3_file_date w self obj")
  case (Inl e)
  then show ?thesis
    using assms(1,2,4) by (simp add: s3_object_selected_traced_def in_range_traced_all)
next
  case (Inr file_date)
  obtain r t' where c: "in_range_traced start_date file_date end_date t = (r, t')"
    by (cases "in_range_traced start_date file_date end_date t")
  have "list_all R (snd (in_range_traced start_date file_date end_date t))"
    using assms(3) [OF Inr] assms(4) by (intro in_range_traced_all) simp_all
  then have t': "list_all R t'"
    using c by simp
  show ?thesis
    using t' assms(1,2)
    by (cases r) (simp_all add: s3_object_selected_traced_def Inr c in_range_traced_all)
qed

lemma s3_loop_traced_result:
  "fst (s3_loop_traced w self start_date end_date objs files t)
    = s3_loop w self start_date end_date objs files"
proof (induction objs arbitrary: files t)
  case Nil
  then show ?case by simp
next
  case (Cons obj objs)
  obtain r t' where c: "s3_object_selected_traced w self start_date end_date obj t = (r, t')"
    by (cases "s3_object_selected_traced w self start_date end_date obj t")
  then have r: "s3_object_selected w self start_date end_date obj = r"
    using s3_object_selected_traced_result [of w self start_date end_date obj t] by simp
  show ?case
    by (cases r) (simp_all add: c r Cons.IH)
qed

lemma s3_loop_traced_all:
  assumes "\<And>obj. obj \<in> set objs \<Longrightarrow>
      R (start_date, LastModified obj) \<and> R (LastModified obj, end_date)
      \<and> (\<forall>file_date. s3_file_date w self obj = Inr file_date
            \<longrightarrow> R (start_date, file_date) \<and> R (file_date, end_date))"
    and "list_all R t"
  shows "list_all R (snd (s3_loop_traced w self start_date end_date objs files t))"
  using assms
proof (induction objs arbitrary: files t)
  case Nil
  then show ?case by simp
next
  case (Cons obj objs)
  obtain r t' where c: "s3_object_selected_traced w self start_date end_date obj t = (r, t')"
    by (cases "s3_object_selected_traced w self start_date end_date obj t")
  have "list_all R (snd (s3_object_selected_traced w self start_date end_date obj t))"
    using Cons.prems(1) [of obj] Cons.prems(2) by (intro s3_object_selected_traced_all) simp_all
  then have t': "list_all R t'"
    using c by simp
  have rest: "list_all R (snd (s3_loop_traced w self start_date end_date objs files t'))" for files
  proof (rule Cons.IH)
    show "list_all R t'" by (rule t')
  next
    fix listed
    assume "listed \<in> set objs"
    then show "R (start_date, LastModified listed) \<and> R (LastModified listed, end_date)
      \<and> (\<forall>file_date. s3_file_date w self listed = Inr file_date
            \<longrightarrow> R (start_date, file_date) \<and> R (file_date, end_date))"
      using Cons.prems(1) [of listed] by simp
  qed
  show ?case
    using t' rest by (cases r) (simp_all add: c)
qed

lemma local_loop_traced_result:
  "fst (local_loop_traced start_date end_date entries files t)
    = local_loop start_date end_date entries files"
proof (induction entries arbitrary: files t)
  case Nil
  then show ?case by simp
next
  case (Cons entry entries)
  obtain r t' where c: "in_range_traced start_date (mtime entry) end_date t = (r, t')"
    by (cases "in_range_traced start_date (mtime entry) end_date t")
  then have r: "in_range start_date (mtime entry) end_date = r"
    using in_range_traced_result [of start_date "mtime entry" end_date t] by simp
  show ?case
    by (cases r) (simp_all add: c r Cons.IH)
qed

lemma local_loop_traced_all:
  assumes "\<And>entry. entry \<in> set entries \<Longrightarrow>
      R (start_date, mtime entry) \<and> R (mtime entry, end_date)"
    and "list_all R t"
  shows "list_all R (snd (local_loop_traced start_date end_date entries files t))"
  using assms
proof (induction entries arbitrary: files t)
  case Nil
  then show ?case by simp
next
  case (Cons entry entries)
  obtain r t' where c: "in_range_traced start_date (mtime entry) end_date t = (r, t')"
    by (cases "in_range_traced start_date (mtime entry) end_date t")
  have "list_all R (snd (in_range_traced start_date (mtime entry) end_date t))"
    using Cons.prems(1) [of entry] Cons.prems(2) by (intro in_range_traced_all) simp_all
  then have t': "list_all R t'"
    using c by simp
  have rest: "\<And>files. list_all R (snd (local_loop_traced start_date end_date entries files t'))"
    using Cons.prems(1) t' by (intro Cons.IH) simp_all
  have skip: "\<And>files. list_all R (snd (local_loop_traced start_date end_date entries files t))"
    using Cons.prems by (intro Cons.IH) simp_all
  show ?case
    using t' rest skip by (cases r) (simp_all add: c)
qed

lemma select_files_traced_result:
  "fst (select_files_traced w self folder start_date end_date t)
    = select_files w self folder start_date end_date"
  by (simp add: select_files_traced_def select_files_def list_s3_files_traced_def
      list_s3_files_def list_local_files_traced_def list_local_files_def Let_def
      s3_loop_traced_result local_loop_traced_result split: sum.splits option.splits)

lemma select_files_comparisons_remote:
  assumes "use_s3 self"
    and "\<And>pages obj. paginate w (bucket_name self) (folder @ ''/'') = Inr pages
          \<Longrightarrow> obj \<in> set (concat (map page_contents pages))
          \<Longrightarrow> R (start_date, LastModified obj) \<and> R (LastModified obj, end_date)
            \<and> (\<forall>file_date. s3_file_date w self obj = Inr file_date
                  \<longrightarrow> R (start_date, file_date) \<and> R (file_date, end_date))"
  shows "list_all R (select_files_comparisons w self folder start_date end_date)"
proof (cases "paginate w (bucket_name self) (folder @ ''/'')")
  case (Inl e)
  then show ?thesis
    using assms(1)
    by (simp add: select_files_comparisons_def select_files_traced_def list_s3_files_traced_def)
next
  case (Inr pages)
  have "list_all R (snd (s3_loop_traced w self start_date end_date
      (concat (map page_contents pages)) [] []))"
    using assms(2) [OF Inr] by (intro s3_loop_traced_all) simp_all
  then show ?thesis
    using assms(1) Inr
    by (simp add: select_files_comparisons_def select_files_traced_def list_s3_files_traced_def)
qed

lemma select_files_comparisons_local:
  assumes "\<not> use_s3 self"
    and "\<And>p entry. entry \<in> set (rglob w p)
          \<Longrightarrow> R (start_date, mtime entry) \<and> R (mtime entry, end_date)"
  shows "list_all R (select_files_comparisons w self folder start_date end_date)"
proof -
  have "\<And>p. list_all R (snd (local_loop_traced start_date end_date (rglob w p) [] []))"
    using assms(2) by (intro local_loop_traced_all) simp_all
  then show ?thesis
    using assms(1)
    by (simp add: select_files_comparisons_def select_files_traced_def
        list_local_files_traced_def Let_def split: option.splits)
qed

lemma s3_file_date_aware:
  assumes "aware (LastModified obj)" "s3_file_date w self obj = Inr file_date"
  shows "aware file_date"
  using assms
  by (auto simp: s3_file_date_def aware_def Let_def split: sum.splits option.splits)

lemma local_loop_naive:
  assumes "\<not> aware start_date" "\<not> aware end_date"
    and "\<And>entry. entry \<in> set entries \<Longrightarrow> \<not> aware (mtime entry)"
  shows "\<exists>selected. local_loop start_date end_date entries files = Inr selected"
  using assms(3)
proof (induction entries arbitrary: files)
  case Nil
  then show ?case by simp
next
  case (Cons entry entries)
  have "\<not> aware (mtime entry)"
    using Cons.prems by simp
  then have "same_domain start_date (mtime entry)" "same_domain (mtime entry) end_date"
    using assms(1,2) by (simp_all add: same_domain_def)
  then obtain b where "in_range start_date (mtime entry) end_date = Inr b"
    using in_range_same_domain by blast
  then show ?case
    using Cons.IH Cons.prems by simp
qed

lemma library_contract_bucket_world: "library_contract bucket_world"
  by (auto simp: library_contract_def bucket_world_def page_contents_def aware_def
      obj_stamped_def obj_unreachable_def obj_garbled_def obj_plain_def obj_older_def
      mk_datetime_def split: if_splits)

lemma library_contract_local_world: "library_contract local_world"
  by (auto simp: library_contract_def local_world_def aware_def mk_datetime_def
      split: if_splits)

lemma bucket_range:
  "get_previous_month_range bucket_world bucket_archiver None
    = Inr (first_instant 2025 9 (Some UTC), last_instant 2025 9 (Some UTC))"
  by (simp add: get_previous_month_range_def sub_one_day_def sub_one_microsecond_def
      bucket_world_def bucket_archiver_def mk_datetime_def first_instant_def last_instant_def
      days_in_month_def)

text \<open>
  C8, as amended. Let the libraries keep their promises (\<open>library_contract\<close>) and let the
  interval bounds be those the month-boundary resolver returns, where in local mode the
  reference date is naive, as every reference date the command line passes is. Then:
  \<^item> in remote mode both bounds are UTC-aware and in every comparison the file selector
    evaluates, on the metadata path, on the last-modified path and in the handler's
    fallback, both operands are aware;
  \<^item> in local mode both bounds are naive and in every comparison the file selector
    evaluates both operands are naive;
  \<^item> so in every comparison both operands lie in the same domain, and every comparison has
    the interval's start on its left or the interval's end on its right;
  \<^item> the comparisons are those of the selector: the traced selector returns what the
    selector returns, and that is a list of files whenever the listing of the store, or
    the data directory, is there (no comparison raises TypeError).
\<close>

theorem comparisons_same_domain:
  assumes "library_contract w"
    and "get_previous_month_range w self ref = Inr (start_date, end_date)"
    and "use_s3 self \<or> \<not> aware (reference w ref)"
  shows "(use_s3 self \<longrightarrow> aware start_date \<and> aware end_date
          \<and> list_all (\<lambda>(a, b). aware a \<and> aware b)
               (select_files_comparisons w self folder start_date end_date))
    \<and> (\<not> use_s3 self \<longrightarrow> \<not> aware start_date \<and> \<not> aware end_date
          \<and> list_all (\<lambda>(a, b). \<not> aware a \<and> \<not> aware b)
               (select_files_comparisons w self folder start_date end_date))
    \<and> list_all (\<lambda>(a, b). same_domain a b \<and> (a = start_date \<or> b = end_date))
         (select_files_comparisons w self folder start_date end_date)
    \<and> select_files_traced w self folder start_date end_date [] =
         (select_files w self folder start_date end_date,
          select_files_comparisons w self folder start_date end_date)
    \<and> (use_s3 self \<longrightarrow>
         (\<forall>pages. paginate w (bucket_name self) (folder @ ''/'') = Inr pages
            \<longrightarrow> (\<exists>keys. select_files w self folder start_date end_date = Inr keys)))
    \<and> (\<not> use_s3 self \<longrightarrow> local_data_dir self \<noteq> None
          \<longrightarrow> (\<exists>files. select_files w self folder start_date end_date = Inr files))
    \<and> (\<forall>cli ref'. parse_reference_date w cli = Inr ref' \<longrightarrow> \<not> aware (reference w ref'))"
proof -
  note tz = get_previous_month_range_tzinfo [OF assms(2)]
  have lm: "\<And>pages obj. paginate w (bucket_name self) (folder @ ''/'') = Inr pages
      \<Longrightarrow> obj \<in> set (concat (map page_contents pages)) \<Longrightarrow> aware (LastModified obj)"
    using assms(1) unfolding library_contract_def by blast
  have mt: "\<And>p entry. entry \<in> set (rglob w p) \<Longrightarrow> \<not> aware (mtime entry)"
    using assms(1) unfolding library_contract_def by blast
  have remote: "aware start_date \<and> aware end_date
      \<and> list_all (\<lambda>(a, b). aware a \<and> aware b)
           (select_files_comparisons w self folder start_date end_date)
      \<and> list_all (\<lambda>(a, b). same_domain a b \<and> (a = start_date \<or> b = end_date))
           (select_files_comparisons w self folder start_date end_date)" if u: "use_s3 self"
  proof -
    have a: "aware start_date" "aware end_date"
      using tz u by (simp_all add: aware_def bounds_tz_def)
    have k: "\<And>pages obj. paginate w (bucket_name self) (folder @ ''/'') = Inr pages
        \<Longrightarrow> obj \<in> set (concat (map page_contents pages))
        \<Longrightarrow> aware (LastModified obj)
          \<and> (\<forall>file_date. s3_file_date w self obj = Inr file_date \<longrightarrow> aware file_date)"
      using lm s3_file_date_aware by blast
    have 1: "list_all (\<lambda>(a, b). aware a \<and> aware b)
        (select_files_comparisons w self folder start_date end_date)"
      by (rule select_files_comparisons_remote [OF u])
        (use k a in \<open>simp only: case_prod_conv, blast\<close>)
    have 2: "list_all (\<lambda>(a, b). same_domain a b \<and> (a = start_date \<or> b = end_date))
        (select_files_comparisons w self folder start_date end_date)"
      by (rule select_files_comparisons_remote [OF u])
        (use k a in \<open>simp only: case_prod_conv same_domain_def, blast\<close>)
    show ?thesis
      using a 1 2 by simp
  qed
  have local: "\<not> aware start_date \<and> \<not> aware end_date
      \<and> list_all (\<lambda>(a, b). \<not> aware a \<and> \<not> aware b)
           (select_files_comparisons w self folder start_date end_date)
      \<and> list_all (\<lambda>(a, b). same_domain a b \<and> (a = start_date \<or> b = end_date))
           (select_files_comparisons w self folder start_date end_date)" if u: "\<not> use_s3 self"
  proof -
    have a: "\<not> aware start_date" "\<not> aware end_date"
      using tz u assms(3) by (auto simp: aware_def bounds_tz_def)
    have 1: "list_all (\<lambda>(a, b). \<not> aware a \<and> \<not> aware b)
        (select_files_comparisons w self folder start_date end_date)"
      using u a mt by (intro select_files_comparisons_local) auto
    have 2: "list_all (\<lambda>(a, b). same_domain a b \<and> (a = start_date \<or> b = end_date))
        (select_files_comparisons w self folder start_date end_date)"
      using u a mt by (intro select_files_comparisons_local) (auto simp: same_domain_def)
    show ?thesis
      using a 1 2 by simp
  qed
  have link: "select_files_traced w self folder start_date end_date [] =
      (select_files w self folder start_date end_date,
       select_files_comparisons w self folder start_date end_date)"
    using select_files_traced_result [of w self folder start_date end_date "[]"]
    by (simp add: select_files_comparisons_def prod_eq_iff)
  have keys: "\<exists>keys. select_files w self folder start_date end_date = Inr keys"
    if u: "use_s3 self" and pg: "paginate w (bucket_name self) (folder @ ''/'') = Inr pages"
    for pages
  proof -
    from remote [OF u] have a: "aware start_date" "aware end_date"
      by simp_all
    from list_s3_files_filter [OF a pg lm [OF pg]] show ?thesis
      using u by (simp add: select_files_def)
  qed
  have files: "\<exists>files. select_files w self folder start_date end_date = Inr files"
    if u: "\<not> use_s3 self" and d: "local_data_dir self \<noteq> None"
  proof -
    from local [OF u] have a: "\<not> aware start_date" "\<not> aware end_date"
      by simp_all
    from d obtain dir where dir: "local_data_dir self = Some dir"
      by auto
    have "\<And>p. \<exists>selected. local_loop start_date end_date (rglob w p) [] = Inr selected"
      using a mt by (intro local_loop_naive) simp_all
    then show ?thesis
      using u dir by (simp add: select_files_def list_local_files_def Let_def)
  qed
  have cli: "\<forall>cli ref'. parse_reference_date w cli = Inr ref' \<longrightarrow> \<not> aware (reference w ref')"
    using assms(1) unfolding library_contract_def
    by (auto simp: parse_reference_date_def reference_def split: if_splits option.splits)
  show ?thesis
    using remote local link keys files cli by (cases "use_s3 self") auto
qed

text \<open>
  The claim as first stated holds the local bounds naive on every path. The resolver
  re-labels the bounds only in remote mode; in local mode they keep the zone of the
  reference date. For a local archiver and the UTC-aware reference date 15 October 2025
  (an argument a caller of \<^verbatim>\<open>archive_previous_month\<close> may pass) the bounds are aware,
  the selector compares the aware start with the naive modification time of the file, and
  the comparison raises TypeError, which ends the run.
\<close>

theorem local_aware_reference_counterexample:
  "library_contract local_world
   \<and> \<not> use_s3 local_archiver
   \<and> get_previous_month_range local_world local_archiver
        (Some (mk_datetime 2025 10 15 0 0 0 (Some UTC)))
       = Inr (first_instant 2025 9 (Some UTC), last_instant 2025 9 (Some UTC))
   \<and> aware (first_instant 2025 9 (Some UTC))
   \<and> select_files_comparisons local_world local_archiver ''Opening''
        (first_instant 2025 9 (Some UTC)) (last_instant 2025 9 (Some UTC))
       = [(first_instant 2025 9 (Some UTC), mk_datetime 2025 9 20 14 30 0 None)]
   \<and> \<not> aware (mk_datetime 2025 9 20 14 30 0 None)
   \<and> \<not> same_domain (first_instant 2025 9 (Some UTC)) (mk_datetime 2025 9 20 14 30 0 None)
   \<and> select_files local_world local_archiver ''Opening''
        (first_instant 2025 9 (Some UTC)) (last_instant 2025 9 (Some UTC)) = Inl TypeError
   \<and> archive_previous_month local_world local_archiver
        (Some (mk_datetime 2025 10 15 0 0 0 (Some UTC))) False empty_state
       = (Inl TypeError, empty_state)"
proof -
  let ?lo = "first_instant 2025 9 (Some UTC)"
  let ?hi = "last_instant 2025 9 (Some UTC)"
  have u: "\<not> use_s3 local_archiver"
    by (simp add: local_archiver_def)
  have r: "get_previous_month_range local_world local_archiver
      (Some (mk_datetime 2025 10 15 0 0 0 (Some UTC))) = Inr (?lo, ?hi)"
    by (simp add: get_previous_month_range_def sub_one_day_def sub_one_microsecond_def
        local_example_defs)
  have a: "aware ?lo" "\<not> aware (mk_datetime 2025 9 20 14 30 0 None)"
    "\<not> same_domain ?lo (mk_datetime 2025 9 20 14 30 0 None)"
    by (simp_all add: aware_def same_domain_def first_instant_def mk_datetime_def)
  have t: "select_files_comparisons local_world local_archiver ''Opening'' ?lo ?hi
      = [(?lo, mk_datetime 2025 9 20 14 30 0 None)]"
    by (simp add: select_files_comparisons_def select_files_traced_def
        list_local_files_traced_def in_range_traced_def dt_le_traced_def dt_le_def
        same_domain_def aware_def example_paths local_example_defs)
  have s: "select_files local_world local_archiver ''Opening'' ?lo ?hi = Inl TypeError"
    by (simp add: select_files_def list_local_files_def in_range_def dt_le_def
        same_domain_def aware_def example_paths local_example_defs)
  have run: "archive_previous_month local_world local_archiver
      (Some (mk_datetime 2025 10 15 0 0 0 (Some UTC))) False empty_state
    = (Inl TypeError, empty_state)"
    unfolding archive_previous_month_def r by (simp add: process_folder_def s)
  show ?thesis
    using library_contract_local_world u r a t s run by blast
qed

theorem comparisons_same_domain_witness:
  "library_contract bucket_world
   \<and> get_previous_month_range bucket_world bucket_archiver None
       = Inr (first_instant 2025 9 (Some UTC), last_instant 2025 9 (Some UTC))
   \<and> use_s3 bucket_archiver
   \<and> paginate bucket_world (bucket_name bucket_archiver) (''Opening'' @ ''/'')
       = Inr [Some [obj_stamped, obj_unreachable, obj_garbled], None, Some [obj_plain, obj_older]]
   \<and> aware (first_instant 2025 9 (Some UTC)) \<and> aware (last_instant 2025 9 (Some UTC))
   \<and> length (select_files_comparisons bucket_world bucket_archiver ''Opening''
        (first_instant 2025 9 (Some UTC)) (last_instant 2025 9 (Some UTC))) = 9
   \<and> list_all (\<lambda>(a, b). aware a \<and> aware b)
        (select_files_comparisons bucket_world bucket_archiver ''Opening''
          (first_instant 2025 9 (Some UTC)) (last_instant 2025 9 (Some UTC)))
   \<and> (\<exists>keys. select_files bucket_world bucket_archiver ''Opening''
          (first_instant 2025 9 (Some UTC)) (last_instant 2025 9 (Some UTC)) = Inr keys)
   \<and> library_contract local_world
   \<and> get_previous_month_range local_world local_archiver
        (Some (mk_datetime 2025 10 15 0 0 0 None))
       = Inr (first_instant 2025 9 None, last_instant 2025 9 None)
   \<and> \<not> use_s3 local_archiver
   \<and> local_data_dir local_archiver = Some (Path ''data'')
   \<and> \<not> aware (reference local_world (Some (mk_datetime 2025 10 15 0 0 0 None)))
   \<and> \<not> aware (first_instant 2025 9 None) \<and> \<not> aware (last_instant 2025 9 None)
   \<and> select_files_traced local_world local_archiver ''Opening''
        (first_instant 2025 9 None) (last_instant 2025 9 None) [] =
       (Inr [''Opening/TXN100000/IDD.pdf''],
        [(first_instant 2025 9 None, mk_datetime 2025 9 20 14 30 0 None),
         (mk_datetime 2025 9 20 14 30 0 None, last_instant 2025 9 None)])
   \<and> list_all (\<lambda>(a, b). same_domain a b
          \<and> (a = first_instant 2025 9 None \<or> b = last_instant 2025 9 None))
        (select_files_comparisons local_world local_archiver ''Opening''
          (first_instant 2025 9 None) (last_instant 2025 9 None))
   \<and> parse_reference_date local_world local_args
       = Inr (Some (mk_datetime 2025 10 15 0 0 0 None))"
proof -
  let ?lo = "first_instant 2025 9 (Some UTC)"
  let ?hi = "last_instant 2025 9 (Some UTC)"
  have u: "use_s3 bucket_archiver"
    by (simp add: bucket_archiver_def)
  then have h: "use_s3 bucket_archiver \<or> \<not> aware (reference bucket_world None)"
    by simp
  have pg: "paginate bucket_world (bucket_name bucket_archiver) (''Opening'' @ ''/'')
      = Inr [Some [obj_stamped, obj_unreachable, obj_garbled], None, Some [obj_plain, obj_older]]"
    by (simp add: bucket_world_def bucket_archiver_def)
  note remote = comparisons_same_domain [OF library_contract_bucket_world bucket_range h,
      of "''Opening''"]
  from remote u have a: "aware ?lo" "aware ?hi"
    by blast+
  from remote u have all: "list_all (\<lambda>(a, b). aware a \<and> aware b)
      (select_files_comparisons bucket_world bucket_archiver ''Opening'' ?lo ?hi)"
    by blast
  from remote u pg have keys: "\<exists>keys. select_files bucket_world bucket_archiver ''Opening''
      ?lo ?hi = Inr keys"
    by blast
  have n: "length (select_files_comparisons bucket_world bucket_archiver ''Opening'' ?lo ?hi) = 9"
    by (simp add: select_files_comparisons_def select_files_traced_def
        list_s3_files_traced_def s3_object_selected_traced_def in_range_traced_def
        dt_le_traced_def example_defs selection_defs)
  let ?ref = "Some (mk_datetime 2025 10 15 0 0 0 None)"
  let ?lo' = "first_instant 2025 9 None"
  let ?hi' = "last_instant 2025 9 None"
  let ?mt = "mk_datetime 2025 9 20 14 30 0 None"
  have u': "\<not> use_s3 local_archiver"
    by (simp add: local_archiver_def)
  have d': "local_data_dir local_archiver = Some (Path ''data'')"
    by (simp add: local_archiver_def)
  have r': "\<not> aware (reference local_world ?ref)"
    by (simp add: aware_def reference_def mk_datetime_def)
  then have h': "use_s3 local_archiver \<or> \<not> aware (reference local_world ?ref)"
    by simp
  note local = comparisons_same_domain [OF library_contract_local_world local_range h',
      of "''Opening''"]
  from local u' have a': "\<not> aware ?lo'" "\<not> aware ?hi'"
    by blast+
  from local have all': "list_all (\<lambda>(a, b). same_domain a b \<and> (a = ?lo' \<or> b = ?hi'))
      (select_files_comparisons local_world local_archiver ''Opening'' ?lo' ?hi')"
    by blast
  have t': "select_files_comparisons local_world local_archiver ''Opening'' ?lo' ?hi'
      = [(?lo', ?mt), (?mt, ?hi')]"
    by (simp add: select_files_comparisons_def select_files_traced_def
        list_local_files_traced_def in_range_traced_def dt_le_traced_def dt_le_def
        same_domain_def aware_def dt_fields_def example_paths local_example_defs)
  from local have "select_files_traced local_world local_archiver ''Opening'' ?lo' ?hi' [] =
      (select_files local_world local_archiver ''Opening'' ?lo' ?hi',
       select_files_comparisons local_world local_archiver ''Opening'' ?lo' ?hi')"
    by blast
  then have tr: "select_files_traced local_world local_archiver ''Opening'' ?lo' ?hi' [] =
      (Inr [''Opening/TXN100000/IDD.pdf''], [(?lo', ?mt), (?mt, ?hi')])"
    unfolding t' local_select_opening .
  have p: "parse_reference_date local_world local_args = Inr ?ref"
    by (simp add: parse_reference_date_def local_args_def truthy_def local_world_def)
  show ?thesis
    using library_contract_bucket_world bucket_range u pg a n all keys
      library_contract_local_world local_range u' d' r' a' tr all' p
    by blast
qed

end
